theory Spec2Isabelle
  imports Complex_Main
begin

section \<open>Conventions\<close>

text \<open>
  The development embeds the batch engine of \<^verbatim>\<open>batch-processor.js\<close> (classes
  \<^verbatim>\<open>RateLimiter\<close>, \<^verbatim>\<open>Logger\<close> and \<^verbatim>\<open>BatchProcessor\<close>); the command-line
  twin in \<^verbatim>\<open>batch-delete.js\<close> has the same rate limiter and retry wrapper.

  JavaScript numbers that hold delays are modelled as reals: rounding of IEEE doubles is
  not represented, and neither are \<^verbatim>\<open>Infinity\<close> and \<^verbatim>\<open>NaN\<close>. The one place where
  the code could leave the finite numbers is the quotient \<^verbatim>\<open>currentDelay / backoffMultiplier\<close>
  at a zero multiplier (JavaScript: \<^verbatim>\<open>Infinity\<close>, HOL: \<open>0\<close>); in the states that a
  limiter with a non-negative configuration reaches, the guard
  \<^verbatim>\<open>currentDelay > baseDelay\<close> fails whenever the multiplier is below one, so the
  quotient is never taken there. Attempt numbers, \<^verbatim>\<open>maxAttempts\<close>, status codes and
  durations are integers.

  The engine is sequential; what happens outside it is given by an environment: the
  result of every remote call, the moments at which \<^verbatim>\<open>cancel()\<close> is invoked (it can
  only run while \<^verbatim>\<open>start\<close> is suspended in an \<^verbatim>\<open>await\<close>), the file writes that
  throw, and the clock. Event listeners are not part of the model: an emitted event is
  appended to a list.
\<close>

section \<open>Adaptive rate limiter\<close>

record rate_config =
  baseDelayMs :: real
  maxDelayMs :: real
  cfgBackoffMultiplier :: real

record rate_limiter =
  currentDelay :: real
  baseDelay :: real
  maxDelay :: real
  backoffMultiplier :: real
  consecutiveSuccesses :: nat

definition new_RateLimiter :: "rate_config \<Rightarrow> rate_limiter" where
  "new_RateLimiter config =
     \<lparr> currentDelay = baseDelayMs config,
       baseDelay = baseDelayMs config,
       maxDelay = maxDelayMs config,
       backoffMultiplier = cfgBackoffMultiplier config,
       consecutiveSuccesses = 0 \<rparr>"

definition onSuccess :: "rate_limiter \<Rightarrow> rate_limiter" where
  "onSuccess r =
     (let r1 = r\<lparr>consecutiveSuccesses := consecutiveSuccesses r + 1\<rparr>
      in if 10 \<le> consecutiveSuccesses r1 \<and> baseDelay r1 < currentDelay r1
         then r1\<lparr>currentDelay := max (baseDelay r1) (currentDelay r1 / backoffMultiplier r1),
                 consecutiveSuccesses := 0\<rparr>
         else r1)"

text \<open>\<^verbatim>\<open>onRateLimit\<close> returns the pair \<^verbatim>\<open>{oldDelay, newDelay}\<close> and the updated limiter.\<close>

definition onRateLimit :: "rate_limiter \<Rightarrow> (real \<times> real) \<times> rate_limiter" where
  "onRateLimit r =
     (let r1 = r\<lparr>consecutiveSuccesses := 0\<rparr>;
          oldDelay = currentDelay r1;
          r2 = r1\<lparr>currentDelay := min (maxDelay r1) (currentDelay r1 * backoffMultiplier r1)\<rparr>
      in ((oldDelay, currentDelay r2), r2))"

definition getCurrentDelay :: "rate_limiter \<Rightarrow> real" where
  "getCurrentDelay r = currentDelay r"

text \<open>A finite sequence of calls made on one limiter, in order.\<close>

datatype limiter_call = OnSuccess | OnRateLimit

fun limiter_step :: "rate_limiter \<Rightarrow> limiter_call \<Rightarrow> rate_limiter" where
  "limiter_step r OnSuccess = onSuccess r"
| "limiter_step r OnRateLimit = snd (onRateLimit r)"

definition limiter_run :: "rate_config \<Rightarrow> limiter_call list \<Rightarrow> rate_limiter" where
  "limiter_run config calls = foldl limiter_step (new_RateLimiter config) calls"


section \<open>Rendering values in template strings\<close>

text \<open>
  A template string renders a number in decimal and an undefined value as
  \<^verbatim>\<open>undefined\<close>. A string is falsy exactly when it is undefined or empty.
\<close>

fun string_of_nat :: "nat \<Rightarrow> string" where
  "string_of_nat n =
     (if n < 10 then [''0123456789'' ! n]
      else string_of_nat (n div 10) @ [''0123456789'' ! (n mod 10)])"

declare string_of_nat.simps [simp del]

definition string_of_int :: "int \<Rightarrow> string" where
  "string_of_int k =
     (if k < 0 then CHR ''-'' # string_of_nat (nat (- k)) else string_of_nat (nat k))"

definition js_string :: "string option \<Rightarrow> string" where
  "js_string v = (case v of None \<Rightarrow> ''undefined'' | Some str \<Rightarrow> str)"

definition truthy :: "string option \<Rightarrow> bool" where
  "truthy v = (case v of None \<Rightarrow> False | Some str \<Rightarrow> str \<noteq> [])"

text \<open>\<^verbatim>\<open>Array.prototype.join\<close> on a list of strings.\<close>

fun join :: "string \<Rightarrow> string list \<Rightarrow> string" where
  "join sep [] = []"
| "join sep [x] = x"
| "join sep (x # y # ys) = x @ sep @ join sep (y # ys)"

definition formatDuration :: "int \<Rightarrow> string" where
  "formatDuration ms =
     (let seconds = ms div 1000;
          minutes = seconds div 60;
          hours = minutes div 60
      in if 0 < hours
         then string_of_int hours @ ''h '' @ string_of_int (minutes mod 60) @ ''m ''
              @ string_of_int (seconds mod 60) @ ''s''
         else if 0 < minutes
         then string_of_int minutes @ ''m '' @ string_of_int (seconds mod 60) @ ''s''
         else string_of_int seconds @ ''s'')"

section \<open>Data of the batch processor\<close>

record retry_config =
  maxAttempts :: int
  initialDelayMs :: real
  retryBackoffMultiplier :: real

text \<open>
  An entry of \<^verbatim>\<open>failedRecords\<close>: the object \<^verbatim>\<open>{identifier, error, status}\<close>
  (the field names are prefixed).
\<close>

record failed_record =
  frIdentifier :: "string option"
  frError :: string
  frStatus :: int

text \<open>
  The logger. The constructor takes the clock reading (an ISO timestamp) from which the
  file names are derived; the creation of the \<^verbatim>\<open>./logs\<close> directory is not modelled.
\<close>

record logger =
  logDir :: string
  timestamp :: string
  logFile :: string
  failedRecordsFile :: string
  failedRecords :: "failed_record list"

definition new_Logger :: "string \<Rightarrow> logger" where
  "new_Logger isoString =
     (let dir = ''./logs'';
          replaced = map (\<lambda>c. if c = CHR '':'' \<or> c = CHR ''.'' then CHR ''-'' else c) isoString;
          ts = take (length replaced - 5) replaced
      in \<lparr> logDir = dir,
           timestamp = ts,
           logFile = dir @ ''/batch-log-'' @ ts @ ''.txt'',
           failedRecordsFile = dir @ ''/failed-records-'' @ ts @ ''.csv'',
           failedRecords = [] \<rparr>)"

record processor =
  records :: "(string \<rightharpoonup> string) list"
  identifierType :: string
  columnName :: string
  deleteAll :: bool
  apiKey :: "string option"
  region :: string
  rateLimit :: rate_config
  retry :: retry_config
  cancelled :: bool
  rateLimiter :: rate_limiter
  logger :: logger

record processor_config =
  cfgRecords :: "(string \<rightharpoonup> string) list"
  cfgIdentifierType :: string
  cfgColumnName :: string
  cfgDeleteAll :: bool
  cfgApiKey :: string
  cfgRegion :: string
  cfgRateLimit :: "rate_config option"
  cfgRetry :: "retry_config option"

definition new_BatchProcessor :: "processor_config \<Rightarrow> string \<Rightarrow> processor" where
  "new_BatchProcessor config isoString =
     (let rl = (case cfgRateLimit config of
                  Some c \<Rightarrow> c
                | None \<Rightarrow> \<lparr>baseDelayMs = 100, maxDelayMs = 5000, cfgBackoffMultiplier = 3/2\<rparr>);
          rt = (case cfgRetry config of
                  Some c \<Rightarrow> c
                | None \<Rightarrow> \<lparr>maxAttempts = 3, initialDelayMs = 1000, retryBackoffMultiplier = 2\<rparr>)
      in \<lparr> records = cfgRecords config,
           identifierType = cfgIdentifierType config,
           columnName = cfgColumnName config,
           deleteAll = cfgDeleteAll config,
           apiKey = Some (cfgApiKey config),
           region = cfgRegion config,
           rateLimit = rl,
           retry = rt,
           cancelled = False,
           rateLimiter = new_RateLimiter rl,
           logger = new_Logger isoString \<rparr>)"

text \<open>
  What \<^verbatim>\<open>deleteCustomer\<close> does with one request is outside the engine: it either
  resolves (with the HTTP status of the response) or rejects with an error that has a
  message and possibly a status. The per-item result of the retry wrapper is
  \<^verbatim>\<open>{success: true, result}\<close> or \<^verbatim>\<open>{success: false, error, status, attempt}\<close>.
\<close>

datatype response = Resolved int | Rejected string "int option"

datatype outcome = Success int | Failure string int int

text \<open>
  Effects that leave the process: a call of \<^verbatim>\<open>deleteCustomer\<close> (identifier type,
  identifier, delete-all flag) and a suspension by \<^verbatim>\<open>sleep\<close>.
\<close>

datatype effect = RemoteCall string "string option" bool | Sleep real

text \<open>
  The payload of the \<^verbatim>\<open>complete\<close> event. The fields \<^verbatim>\<open>logFile\<close> and
  \<^verbatim>\<open>failedRecordsFile\<close> are prefixed, since the logger has fields of these names.
\<close>

record summary =
  successCount :: nat
  failureCount :: nat
  totalProcessed :: nat
  duration :: string
  durationMs :: int
  summaryLogFile :: string
  summaryFailedRecordsFile :: "string option"
  hasFailedRecords :: bool

text \<open>
  The events the processor emits. The percentage of the \<^verbatim>\<open>progress\<close> event is kept
  as a number; its formatting by \<^verbatim>\<open>toFixed(1)\<close> is not modelled.
\<close>

datatype event =
    StartEv nat
  | ProgressEv nat nat real
  | SuccessEv "string option" nat nat
  | FailureEv "string option" string int nat nat
  | RateLimitEv real real
  | CompleteEv summary
  | CancelledEv

datatype exn = IOError

text \<open>
  The mutable state: the processor object, the process environment \<^verbatim>\<open>process.env\<close>,
  the file system, the number of \<^verbatim>\<open>writeFileSync\<close> calls made so far, and the
  effects and events produced so far, oldest first.
\<close>

record state =
  self :: processor
  environ :: "string \<rightharpoonup> string"
  files :: "string \<rightharpoonup> string"
  writes :: nat
  effects :: "effect list"
  emitted :: "event list"

text \<open>
  What the engine does not decide: the result of each remote call (by item index and
  attempt number), whether \<^verbatim>\<open>cancel()\<close> is invoked while the engine is suspended in
  an iteration (during the remote call of that item, or during the wait after it),
  whether the \<open>k\<close>-th file write throws, the clock reading at the \<open>k\<close>-th write, and
  the elapsed time of the run.
\<close>

datatype cancel_point = DuringCall | DuringWait

record environment =
  remote :: "nat \<Rightarrow> int \<Rightarrow> response"
  cancelReq :: "nat \<Rightarrow> cancel_point option"
  writeFails :: "nat \<Rightarrow> bool"
  isoNow :: "nat \<Rightarrow> string"
  elapsedMs :: int

section \<open>Primitive operations\<close>

definition emit :: "event \<Rightarrow> state \<Rightarrow> state" where
  "emit e s = s\<lparr>emitted := emitted s @ [e]\<rparr>"

definition sleep :: "real \<Rightarrow> state \<Rightarrow> state" where
  "sleep ms s = s\<lparr>effects := effects s @ [Sleep ms]\<rparr>"

definition writeFileSync ::
  "environment \<Rightarrow> string \<Rightarrow> string \<Rightarrow> bool \<Rightarrow> state \<Rightarrow> (exn + unit) \<times> state" where
  "writeFileSync E path content appendFlag s =
     (if writeFails E (writes s) then (Inl IOError, s\<lparr>writes := writes s + 1\<rparr>)
      else (Inr (),
            s\<lparr>files := (files s)(path \<mapsto>
                  (if appendFlag then (case files s path of None \<Rightarrow> [] | Some old \<Rightarrow> old) else [])
                  @ content),
              writes := writes s + 1\<rparr>))"

text \<open>Sequencing of operations that may throw: the first exception ends the sequence.\<close>

definition andThen ::
  "(state \<Rightarrow> (exn + 'a) \<times> state) \<Rightarrow> ('a \<Rightarrow> state \<Rightarrow> (exn + 'b) \<times> state)
     \<Rightarrow> state \<Rightarrow> (exn + 'b) \<times> state" where
  "andThen m f s = (case m s of (Inl e, s') \<Rightarrow> (Inl e, s') | (Inr a, s') \<Rightarrow> f a s')"

section \<open>Logger\<close>

definition logger_log :: "environment \<Rightarrow> string \<Rightarrow> state \<Rightarrow> (exn + unit) \<times> state" where
  "logger_log E message s =
     writeFileSync E (logFile (logger (self s)))
       (''['' @ isoNow E (writes s) @ ''] '' @ message @ [CHR 0x0A]) True s"

definition addFailedRecord :: "string option \<Rightarrow> string \<Rightarrow> int \<Rightarrow> state \<Rightarrow> state" where
  "addFailedRecord ident err st s =
     s\<lparr>self := (self s)\<lparr>logger := (logger (self s))
          \<lparr>failedRecords := failedRecords (logger (self s))
              @ [\<lparr>frIdentifier = ident, frError = err, frStatus = st\<rparr>]\<rparr>\<rparr>\<rparr>"

definition csv_row :: "failed_record \<Rightarrow> string" where
  "csv_row r =
     [CHR 0x22] @ js_string (frIdentifier r) @ [CHR 0x22] @ '','' @
     [CHR 0x22] @ frError r @ [CHR 0x22] @ '','' @ string_of_int (frStatus r)"

definition saveFailedRecords ::
  "environment \<Rightarrow> string \<Rightarrow> state \<Rightarrow> (exn + string option) \<times> state" where
  "saveFailedRecords E colName s =
     (if length (failedRecords (logger (self s))) = 0 then (Inr None, s)
      else
        (let csvHeader = colName @ '',error,status'' @ [CHR 0x0A];
             csvRows = join [CHR 0x0A] (map csv_row (failedRecords (logger (self s))))
         in andThen (writeFileSync E (failedRecordsFile (logger (self s))) (csvHeader @ csvRows) False)
              (\<lambda>_ s'. (Inr (Some (failedRecordsFile (logger (self s')))), s')) s))"

definition getLogFile :: "state \<Rightarrow> string" where
  "getLogFile s = logFile (logger (self s))"

definition logger_hasFailedRecords :: "state \<Rightarrow> bool" where
  "logger_hasFailedRecords s \<longleftrightarrow> 0 < length (failedRecords (logger (self s)))"

text \<open>The lines of a text: the pieces between line feeds.\<close>

fun lines_from :: "string \<Rightarrow> string \<Rightarrow> string list" where
  "lines_from acc [] = [rev acc]"
| "lines_from acc (c # cs) =
     (if c = CHR 0x0A then rev acc # lines_from [] cs else lines_from (c # acc) cs)"

definition lines :: "string \<Rightarrow> string list" where
  "lines txt = lines_from [] txt"

section \<open>Batch processor\<close>

text \<open>
  \<^verbatim>\<open>deleteWithRetry(identifier, attempt)\<close>, called for the item with index \<open>i\<close>.
  An assignment to \<^verbatim>\<open>process.env\<close> stores the string form of the value, which is
  \<^verbatim>\<open>null\<close> for a cleared key.

  The retry in the \<^verbatim>\<open>catch\<close> block is \<^verbatim>\<open>return this.deleteWithRetry(identifier, attempt + 1)\<close>:
  the call is not awaited there. The callee runs up to its first \<^verbatim>\<open>await\<close> (it saves
  the key it finds, overrides the environment and issues the remote call); then the
  \<^verbatim>\<open>finally\<close> block of the caller runs; only then does the callee continue, and its own
  \<^verbatim>\<open>finally\<close> block runs last. The recursive function therefore takes the key that the
  calling invocation has saved and still has to restore (\<open>pending\<close>); the call made by
  \<^verbatim>\<open>start\<close>, which is awaited, has none.
\<close>

definition env_string :: "string option \<Rightarrow> string" where
  "env_string v = (case v of None \<Rightarrow> ''null'' | Some str \<Rightarrow> str)"

definition restore_key :: "string option \<Rightarrow> state \<Rightarrow> state" where
  "restore_key originalKey s =
     (if truthy originalKey
      then s\<lparr>environ := (environ s)(''BLUESHIFT_USER_API_KEY'' := originalKey)\<rparr>
      else s\<lparr>environ := (environ s)(''BLUESHIFT_USER_API_KEY'' := None)\<rparr>)"

definition run_pending :: "string option option \<Rightarrow> state \<Rightarrow> state" where
  "run_pending pending s =
     (case pending of None \<Rightarrow> s | Some callerKey \<Rightarrow> restore_key callerKey s)"

function deleteWithRetry_call ::
  "environment \<Rightarrow> nat \<Rightarrow> string option \<Rightarrow> int \<Rightarrow> string option option \<Rightarrow> state
     \<Rightarrow> outcome \<times> state" where
  "deleteWithRetry_call E i ident attempt pending s =
     (let originalKey = environ s ''BLUESHIFT_USER_API_KEY'';
          s1 = s\<lparr>environ := (environ s)(''BLUESHIFT_USER_API_KEY'' \<mapsto> env_string (apiKey (self s)))\<rparr>;
          s2 = s1\<lparr>environ := (environ s1)(''BLUESHIFT_REGION'' \<mapsto> region (self s1))\<rparr>;
          s3 = s2\<lparr>effects := effects s2
                  @ [RemoteCall (identifierType (self s2)) ident (deleteAll (self s2))]\<rparr>;
          s4 = run_pending pending s3
      in case remote E i attempt of
           Resolved result \<Rightarrow> (Success result, restore_key originalKey s4)
         | Rejected msg code \<Rightarrow>
             (let st = (case code of None \<Rightarrow> 500 | Some c \<Rightarrow> if c = 0 then 500 else c);
                  shouldRetry = (attempt < maxAttempts (retry (self s4))
                                 \<and> (st = 429 \<or> 500 \<le> st))
              in if shouldRetry
                 then deleteWithRetry_call E i ident (attempt + 1) (Some originalKey)
                        (sleep (initialDelayMs (retry (self s4))
                                * retryBackoffMultiplier (retry (self s4)) powi (attempt - 1)) s4)
                 else (Failure msg st attempt, restore_key originalKey s4)))"
  by pat_completeness auto
termination
  by (relation "measure (\<lambda>(E, i, ident, attempt, pending, s).
        nat (maxAttempts (retry (self s)) - attempt))")
     (auto simp: sleep_def run_pending_def restore_key_def split: option.splits if_splits)

declare deleteWithRetry_call.simps [simp del]

definition deleteWithRetry ::
  "environment \<Rightarrow> nat \<Rightarrow> string option \<Rightarrow> int \<Rightarrow> state \<Rightarrow> outcome \<times> state" where
  "deleteWithRetry E i ident attempt s = deleteWithRetry_call E i ident attempt None s"

definition cancel :: "state \<Rightarrow> state" where
  "cancel s = emit CancelledEv (s\<lparr>self := (self s)\<lparr>cancelled := True\<rparr>\<rparr>)"

text \<open>
  The counters \<^verbatim>\<open>successCount\<close> and \<^verbatim>\<open>failureCount\<close> of \<^verbatim>\<open>start\<close> are the
  parameters \<open>sc\<close> and \<open>fc\<close> below (the summary has fields of these names).
  The branch of the loop body that follows the remote call (the \<^verbatim>\<open>if (result.success)\<close>
  statement of \<^verbatim>\<open>start\<close>). It returns the updated counters.
\<close>

definition on_result ::
  "environment \<Rightarrow> string option \<Rightarrow> nat \<Rightarrow> nat \<Rightarrow> outcome \<Rightarrow> nat \<Rightarrow> nat
     \<Rightarrow> state \<Rightarrow> (exn + nat \<times> nat) \<times> state" where
  "on_result E ident current totalCount result sc fc =
     (case result of
        Success res \<Rightarrow>
          andThen (logger_log E (''SUCCESS: '' @ js_string ident)) (\<lambda>_ s.
            (let s1 = emit (SuccessEv ident current totalCount) s;
                 s2 = s1\<lparr>self := (self s1)\<lparr>rateLimiter := onSuccess (rateLimiter (self s1))\<rparr>\<rparr>
             in (Inr (sc + 1, fc), s2)))
      | Failure err st attempt \<Rightarrow>
          andThen (logger_log E (''FAILED: '' @ js_string ident @ '' - Status: ''
                                 @ string_of_int st @ '' - Error: '' @ err)) (\<lambda>_ s.
            (let s1 = addFailedRecord ident err st s;
                 s2 = emit (FailureEv ident err st current totalCount) s1;
                 s3 = (if st = 429
                       then (let delays = onRateLimit (rateLimiter (self s2));
                                 s' = s2\<lparr>self := (self s2)\<lparr>rateLimiter := snd delays\<rparr>\<rparr>
                             in emit (RateLimitEv (fst (fst delays)) (snd (fst delays))) s')
                       else s2)
             in (Inr (sc, fc + 1), s3))))"

datatype flow = Break | Continue

text \<open>One iteration of the \<^verbatim>\<open>for\<close> loop of \<^verbatim>\<open>start\<close>, for the index \<open>i\<close>.\<close>

definition loop_body ::
  "environment \<Rightarrow> nat \<Rightarrow> nat \<Rightarrow> nat \<Rightarrow> state \<Rightarrow> (exn + flow \<times> nat \<times> nat) \<times> state" where
  "loop_body E i sc fc s =
     (if cancelled (self s)
      then andThen (logger_log E ''Batch processing cancelled by user'')
             (\<lambda>_ s'. (Inr (Break, sc, fc), emit CancelledEv s')) s
      else
        (let ident = (records (self s) ! i) (columnName (self s));
             current = i + 1;
             totalCount = length (records (self s));
             percentage = real current / real totalCount * 100;
             s1 = emit (ProgressEv current totalCount percentage) s;
             called = deleteWithRetry E i ident 1 s1;
             s2 = (if cancelReq E i = Some DuringCall then cancel (snd called) else snd called)
         in andThen (on_result E ident current totalCount (fst called) sc fc)
              (\<lambda>counts s3.
                 (let s4 = (if int i < int (length (records (self s3))) - 1
                            then (let s' = sleep (currentDelay (rateLimiter (self s3))) s3
                                  in if cancelReq E i = Some DuringWait then cancel s' else s')
                            else s3)
                  in (Inr (Continue, fst counts, snd counts), s4))) s2))"

function loop ::
  "environment \<Rightarrow> nat \<Rightarrow> nat \<Rightarrow> nat \<Rightarrow> state \<Rightarrow> (exn + nat \<times> nat) \<times> state" where
  "loop E i sc fc s =
     (if i < length (records (self s))
      then (case loop_body E i sc fc s of
              (Inl e, s') \<Rightarrow> (Inl e, s')
            | (Inr (Break, sc', fc'), s') \<Rightarrow> (Inr (sc', fc'), s')
            | (Inr (Continue, sc', fc'), s') \<Rightarrow> loop E (i + 1) sc' fc' s')
      else (Inr (sc, fc), s))"
  by pat_completeness auto

definition start :: "environment \<Rightarrow> state \<Rightarrow> (exn + unit) \<times> state" where
  "start E =
     andThen (logger_log E ''=== Batch Delete Started ==='') (\<lambda>_.
     andThen (\<lambda>s. logger_log E (''Total Records: '' @ string_of_nat (length (records (self s)))) s) (\<lambda>_.
     andThen (\<lambda>s. logger_log E (''Identifier Type: '' @ identifierType (self s)) s) (\<lambda>_.
     andThen (\<lambda>s. logger_log E (''Column Name: '' @ columnName (self s)) s) (\<lambda>_.
     andThen (\<lambda>s. (Inr (), emit (StartEv (length (records (self s)))) s)) (\<lambda>_.
     andThen (loop E 0 0 0) (\<lambda>counts.
     andThen (\<lambda>s. saveFailedRecords E (columnName (self s)) s) (\<lambda>failedFile.
     andThen (logger_log E ''=== Batch Delete Completed ==='') (\<lambda>_.
     andThen (\<lambda>s. logger_log E (''Total Processed: '' @ string_of_nat (length (records (self s)))) s) (\<lambda>_.
     andThen (logger_log E (''Successful: '' @ string_of_nat (fst counts))) (\<lambda>_.
     andThen (logger_log E (''Failed: '' @ string_of_nat (snd counts))) (\<lambda>_.
     andThen (logger_log E (''Duration: '' @ formatDuration (elapsedMs E))) (\<lambda>_.
     andThen (\<lambda>s. (Inr (), emit (CompleteEv
                \<lparr> successCount = fst counts,
                  failureCount = snd counts,
                  totalProcessed = length (records (self s)),
                  duration = formatDuration (elapsedMs E),
                  durationMs = elapsedMs E,
                  summaryLogFile = getLogFile s,
                  summaryFailedRecordsFile = failedFile,
                  hasFailedRecords = logger_hasFailedRecords s \<rparr>) s)) (\<lambda>_ s.
     (Inr (), s\<lparr>self := (self s)\<lparr>apiKey := None\<rparr>\<rparr>))))))))))))))"

section \<open>The loop terminates\<close>

text \<open>No operation of the loop body changes the list of records.\<close>

lemma self_restore_key [simp]: "self (restore_key k s) = self s"
  by (simp add: restore_key_def)

lemma self_run_pending [simp]: "self (run_pending pending s) = self s"
  by (simp add: run_pending_def split: option.splits)

lemma deleteWithRetry_call_self:
  "self (snd (deleteWithRetry_call E i ident attempt pending s)) = self s"
proof (induction E i ident attempt pending s rule: deleteWithRetry_call.induct)
  case (1 E i ident attempt pending s)
  show ?case
  proof (cases "remote E i attempt")
    case (Resolved result)
    then show ?thesis
      by (subst deleteWithRetry_call.simps) (simp add: Let_def)
  next
    case (Rejected msg code)
    then show ?thesis
      using 1[OF refl refl refl refl refl Rejected refl refl]
      by (subst deleteWithRetry_call.simps) (simp add: Let_def sleep_def)
  qed
qed

lemma deleteWithRetry_self: "self (snd (deleteWithRetry E i ident attempt s)) = self s"
  by (simp add: deleteWithRetry_def deleteWithRetry_call_self)

lemma writeFileSync_self: "self (snd (writeFileSync E path content fl s)) = self s"
  by (simp add: writeFileSync_def)

lemma logger_log_self: "self (snd (logger_log E message s)) = self s"
  by (simp add: logger_log_def writeFileSync_self)

lemma andThen_frame:
  assumes "f (snd (m s)) = f s" and "\<And>a s'. f (snd (g a s')) = f s'"
  shows "f (snd (andThen m g s)) = f s"
proof (cases "m s")
  case (Pair r s')
  then show ?thesis
    using assms(1) assms(2)[of _ s'] by (cases r) (simp_all add: andThen_def)
qed

lemma emit_self: "self (emit e s) = self s"
  by (simp add: emit_def)

lemma sleep_self: "self (sleep ms s) = self s"
  by (simp add: sleep_def)

lemma cancel_records: "records (self (cancel s)) = records (self s)"
  by (simp add: cancel_def emit_def)

lemma addFailedRecord_records: "records (self (addFailedRecord ident err st s)) = records (self s)"
  by (simp add: addFailedRecord_def)

lemma on_result_records:
  "records (self (snd (on_result E ident current totalCount result sc fc s))) = records (self s)"
proof (cases result)
  case (Success res)
  show ?thesis
    unfolding on_result_def Success outcome.case
    by (rule andThen_frame) (simp_all add: logger_log_self Let_def emit_self)
next
  case (Failure err st attempt)
  show ?thesis
    unfolding on_result_def Failure outcome.case
    by (rule andThen_frame)
       (simp_all add: logger_log_self Let_def emit_self addFailedRecord_records)
qed

lemma loop_body_records:
  "records (self (snd (loop_body E i sc fc s))) = records (self s)"
proof (cases "cancelled (self s)")
  case True
  show ?thesis
    unfolding loop_body_def if_P[OF True]
    by (rule andThen_frame) (simp_all add: logger_log_self emit_self)
next
  case False
  have step: "records (self (snd (andThen (on_result E ident current totalCount result sc fc) g s2)))
      = records (self s2)"
    if "\<And>a s'. records (self (snd (g a s'))) = records (self s')"
    for ident current totalCount result g s2
    by (rule andThen_frame) (simp_all add: on_result_records that)
  show ?thesis
    unfolding loop_body_def if_not_P[OF False] Let_def
    by (subst step)
       (simp_all add: sleep_self cancel_records emit_self deleteWithRetry_self)
qed

termination loop
proof (relation "measure (\<lambda>(E, i, sc, fc, s). length (records (self s)) - i)")
  show "wf (measure (\<lambda>(E, i, sc, fc, s). length (records (self s)) - i))"
    by simp
next
  fix E i sc fc s x1 x2 x2a x1a x2b x1b x2c
  assume lt: "i < length (records (self s))"
    and body: "(x1, x2) = loop_body E i sc fc s"
  have "records (self x2) = records (self s)"
    using loop_body_records[of E i sc fc s] body[symmetric] by simp
  then show "((E, i + 1, x1b, x2c, x2), E, i, sc, fc, s)
      \<in> measure (\<lambda>(E, i, sc, fc, s). length (records (self s)) - i)"
    using lt by simp
qed

declare loop.simps [simp del]

section \<open>The command-line twin\<close>

text \<open>
  \<^verbatim>\<open>batch-delete.js\<close> has its own copies of the retry wrapper, the rate limiter and
  the logger. They take the settings from the configuration object (the fields are
  prefixed here), do not touch the process environment, and write progress to the
  console, which is not modelled.
\<close>

record cli_config =
  cliCsvFile :: string
  cliIdentifierType :: string
  cliCsvColumnName :: string
  cliDeleteAll :: bool
  cliRateLimit :: rate_config
  cliRetry :: retry_config

function cli_deleteWithRetry ::
  "(int \<Rightarrow> response) \<Rightarrow> string option \<Rightarrow> cli_config \<Rightarrow> int \<Rightarrow> effect list
     \<Rightarrow> outcome \<times> effect list" where
  "cli_deleteWithRetry respond ident config attempt es =
     (let es1 = es @ [RemoteCall (cliIdentifierType config) ident (cliDeleteAll config)]
      in case respond attempt of
           Resolved result \<Rightarrow> (Success result, es1)
         | Rejected msg code \<Rightarrow>
             (let st = (case code of None \<Rightarrow> 500 | Some c \<Rightarrow> if c = 0 then 500 else c);
                  shouldRetry = (attempt < maxAttempts (cliRetry config)
                                 \<and> (st = 429 \<or> 500 \<le> st))
              in if shouldRetry
                 then cli_deleteWithRetry respond ident config (attempt + 1)
                        (es1 @ [Sleep (initialDelayMs (cliRetry config)
                                       * retryBackoffMultiplier (cliRetry config) powi (attempt - 1))])
                 else (Failure msg st attempt, es1)))"
  by pat_completeness auto
termination
  by (relation "measure (\<lambda>(respond, ident, config, attempt, es).
        nat (maxAttempts (cliRetry config) - attempt))") auto

declare cli_deleteWithRetry.simps [simp del]

definition cli_new_RateLimiter :: "cli_config \<Rightarrow> rate_limiter" where
  "cli_new_RateLimiter config =
     \<lparr> currentDelay = baseDelayMs (cliRateLimit config),
       baseDelay = baseDelayMs (cliRateLimit config),
       maxDelay = maxDelayMs (cliRateLimit config),
       backoffMultiplier = cfgBackoffMultiplier (cliRateLimit config),
       consecutiveSuccesses = 0 \<rparr>"

definition cli_onSuccess :: "rate_limiter \<Rightarrow> rate_limiter" where
  "cli_onSuccess r =
     (let r1 = r\<lparr>consecutiveSuccesses := consecutiveSuccesses r + 1\<rparr>
      in if 10 \<le> consecutiveSuccesses r1 \<and> baseDelay r1 < currentDelay r1
         then r1\<lparr>currentDelay := max (baseDelay r1) (currentDelay r1 / backoffMultiplier r1),
                 consecutiveSuccesses := 0\<rparr>
         else r1)"

definition cli_onRateLimit :: "rate_limiter \<Rightarrow> rate_limiter" where
  "cli_onRateLimit r =
     (let r1 = r\<lparr>consecutiveSuccesses := 0\<rparr>
      in r1\<lparr>currentDelay := min (maxDelay r1) (currentDelay r1 * backoffMultiplier r1)\<rparr>)"

definition cli_new_Logger :: "string \<Rightarrow> logger" where
  "cli_new_Logger isoString =
     (let dir = ''./logs'';
          replaced = map (\<lambda>c. if c = CHR '':'' \<or> c = CHR ''.'' then CHR ''-'' else c) isoString;
          ts = take (length replaced - 5) replaced
      in \<lparr> logDir = dir,
           timestamp = ts,
           logFile = dir @ ''/batch-log-'' @ ts @ ''.txt'',
           failedRecordsFile = dir @ ''/failed-records.csv'',
           failedRecords = [] \<rparr>)"

definition cli_saveFailedRecords ::
  "environment \<Rightarrow> cli_config \<Rightarrow> state \<Rightarrow> (exn + unit) \<times> state" where
  "cli_saveFailedRecords E config s =
     (if length (failedRecords (logger (self s))) = 0 then (Inr (), s)
      else
        (let csvHeader = cliCsvColumnName config @ '',error,status'' @ [CHR 0x0A];
             csvRows = join [CHR 0x0A] (map csv_row (failedRecords (logger (self s))))
         in writeFileSync E (failedRecordsFile (logger (self s))) (csvHeader @ csvRows) False s))"

section \<open>Notions for stating the properties\<close>

text \<open>
  Names for the parts of \<^verbatim>\<open>deleteWithRetry\<close> that the properties speak about: the
  state after the environment has been overridden and the remote call issued, the status
  \<^verbatim>\<open>error.status || 500\<close>, the retry condition on that status, and the delay before
  the next attempt.
\<close>

definition issue_call :: "string option \<Rightarrow> state \<Rightarrow> state" where
  "issue_call ident s =
     s\<lparr>environ := (environ s)(''BLUESHIFT_USER_API_KEY'' \<mapsto> env_string (apiKey (self s)),
                                ''BLUESHIFT_REGION'' \<mapsto> region (self s)),
       effects := effects s @ [RemoteCall (identifierType (self s)) ident (deleteAll (self s))]\<rparr>"

definition effective_status :: "int option \<Rightarrow> int" where
  "effective_status code = (case code of None \<Rightarrow> 500 | Some c \<Rightarrow> if c = 0 then 500 else c)"

definition retryable :: "int \<Rightarrow> bool" where
  "retryable st \<longleftrightarrow> st = 429 \<or> 500 \<le> st"

definition retry_delay :: "retry_config \<Rightarrow> int \<Rightarrow> real" where
  "retry_delay cfg attempt = initialDelayMs cfg * retryBackoffMultiplier cfg powi (attempt - 1)"

text \<open>The effects a call adds, and the number of remote calls among them.\<close>

definition new_effects :: "state \<Rightarrow> state \<Rightarrow> effect list" where
  "new_effects s s' = drop (length (effects s)) (effects s')"

fun is_call :: "effect \<Rightarrow> bool" where
  "is_call (RemoteCall t ident d) = True"
| "is_call (Sleep ms) = False"

definition remote_calls :: "effect list \<Rightarrow> nat" where
  "remote_calls es = length (filter is_call es)"

text \<open>
  The effects of the attempts \<open>a, \<dots>, k\<close> when each of them fails and is retried: a
  remote call followed by the suspension before the next attempt.
\<close>

definition retry_schedule :: "processor \<Rightarrow> string option \<Rightarrow> int \<Rightarrow> int \<Rightarrow> effect list" where
  "retry_schedule p ident a k =
     concat (map (\<lambda>j. [RemoteCall (identifierType p) ident (deleteAll p),
                       Sleep (retry_delay (retry p) j)]) [a..k])"

text \<open>
  A concrete processor with two records and the default rate and retry settings, an
  environment in which every remote call resolves, and one in which every remote call
  rejects with a given status.
\<close>

definition demo_config :: processor_config where
  "demo_config =
     \<lparr> cfgRecords = [[''email'' \<mapsto> ''a@example.com''], [''email'' \<mapsto> ''b@example.com'']],
       cfgIdentifierType = ''email'',
       cfgColumnName = ''email'',
       cfgDeleteAll = False,
       cfgApiKey = ''secret'',
       cfgRegion = ''eu'',
       cfgRateLimit = None,
       cfgRetry = None \<rparr>"

definition demo_state :: state where
  "demo_state =
     \<lparr> self = new_BatchProcessor demo_config ''2026-01-01T00:00:00.000Z'',
       environ = Map.empty,
       files = Map.empty,
       writes = 0,
       effects = [],
       emitted = [] \<rparr>"

definition env_resolving :: environment where
  "env_resolving =
     \<lparr> remote = (\<lambda>i a. Resolved 200),
       cancelReq = (\<lambda>i. None),
       writeFails = (\<lambda>k. False),
       isoNow = (\<lambda>k. ''2026-01-01T00:00:01.000Z''),
       elapsedMs = 1500 \<rparr>"

definition env_rejecting :: "int option \<Rightarrow> environment" where
  "env_rejecting code = env_resolving\<lparr>remote := (\<lambda>i a. Rejected ''API Error'' code)\<rparr>"

definition demo_state_with_key :: "string \<Rightarrow> state" where
  "demo_state_with_key k = demo_state\<lparr>environ := [''BLUESHIFT_USER_API_KEY'' \<mapsto> k]\<rparr>"

definition demo_state_two_attempts :: "string \<Rightarrow> state" where
  "demo_state_two_attempts k =
     (demo_state_with_key k)
       \<lparr>self := (self demo_state)
          \<lparr>retry := \<lparr>maxAttempts = 2, initialDelayMs = 1000, retryBackoffMultiplier = 2\<rparr>\<rparr>\<rparr>"

text \<open>The environment that differs from \<open>E\<close> in the response to attempt \<open>a\<close> for item \<open>i\<close>.\<close>

definition with_response :: "environment \<Rightarrow> nat \<Rightarrow> int \<Rightarrow> response \<Rightarrow> environment" where
  "with_response E i a r = E\<lparr>remote := (remote E)(i := (remote E i)(a := r))\<rparr>"

text \<open>
  A text has a line feed; the content that \<^verbatim>\<open>saveFailedRecords\<close> writes for a column
  name and a list of failures; the demo state after one recorded failure.
\<close>

definition has_line_feed :: "string \<Rightarrow> bool" where
  "has_line_feed txt \<longleftrightarrow> CHR 0x0A \<in> set txt"

definition csv_text :: "string \<Rightarrow> failed_record list \<Rightarrow> string" where
  "csv_text colName rs =
     colName @ '',error,status'' @ [CHR 0x0A] @ join [CHR 0x0A] (map csv_row rs)"

definition demo_failed :: "string \<Rightarrow> state" where
  "demo_failed ident = addFailedRecord (Some ident) ''API Error'' 404 demo_state"

text \<open>
  The events a run adds, and the outcome of the retry wrapper for the item with index
  \<open>i\<close> (it depends on the state only through the retry settings and the record).
\<close>

definition new_events :: "state \<Rightarrow> state \<Rightarrow> event list" where
  "new_events s s' = drop (length (emitted s)) (emitted s')"

fun is_rate_limit :: "event \<Rightarrow> bool" where
  "is_rate_limit (RateLimitEv od nd) = True"
| "is_rate_limit e = False"

definition item_outcome :: "environment \<Rightarrow> state \<Rightarrow> nat \<Rightarrow> outcome" where
  "item_outcome E s i =
     fst (deleteWithRetry E i ((records (self s) ! i) (columnName (self s))) 1 s)"

text \<open>
  A failure event with status 429 for an item whose final outcome is a failure with status
  429 and the same message.
\<close>

fun final_429 :: "environment \<Rightarrow> state \<Rightarrow> event \<Rightarrow> bool" where
  "final_429 E s (FailureEv ident msg st current tot) =
     (st = 429 \<and> 0 < current \<and>
      (case item_outcome E s (current - 1) of
         Failure m st' att \<Rightarrow> m = msg \<and> st' = 429
       | Success r \<Rightarrow> False))"
| "final_429 E s e = False"

text \<open>
  Every \<^verbatim>\<open>rateLimit\<close> event of a list comes directly after an event that satisfies
  \<open>ok\<close>; \<open>prev\<close> says whether the event before the list does.
\<close>

fun rate_limits_follow :: "(event \<Rightarrow> bool) \<Rightarrow> bool \<Rightarrow> event list \<Rightarrow> bool" where
  "rate_limits_follow ok prev [] = True"
| "rate_limits_follow ok prev (e # es) =
     ((if is_rate_limit e then prev else True) \<and> rate_limits_follow ok (ok e) es)"

text \<open>
  The limiter calls that a list of events stands for: \<^verbatim>\<open>onSuccess\<close> for a
  \<^verbatim>\<open>success\<close> event, \<^verbatim>\<open>onRateLimit\<close> for a \<^verbatim>\<open>rateLimit\<close> event.
\<close>

fun limiter_calls :: "event list \<Rightarrow> limiter_call list" where
  "limiter_calls [] = []"
| "limiter_calls (SuccessEv ident current tot # es) = OnSuccess # limiter_calls es"
| "limiter_calls (RateLimitEv od nd # es) = OnRateLimit # limiter_calls es"
| "limiter_calls (e # es) = limiter_calls es"

text \<open>
  The invariant of a run started in \<open>s0\<close>: records, column name and retry settings are
  those of \<open>s0\<close>; the events added so far do not begin with a \<^verbatim>\<open>rateLimit\<close> event
  and each of their \<^verbatim>\<open>rateLimit\<close> events directly follows the failure event of a
  final 429; the limiter is the initial one after the calls these events stand for.
\<close>

definition run_inv :: "environment \<Rightarrow> state \<Rightarrow> state \<Rightarrow> bool" where
  "run_inv E s0 s \<longleftrightarrow>
     records (self s) = records (self s0) \<and>
     columnName (self s) = columnName (self s0) \<and>
     retry (self s) = retry (self s0) \<and>
     (\<exists>evs. emitted s = emitted s0 @ evs \<and>
        (\<forall>b. rate_limits_follow (final_429 E s0) b evs) \<and>
        rateLimiter (self s)
          = foldl limiter_step (rateLimiter (self s0)) (limiter_calls evs))"

text \<open>The file system after a successful \<^verbatim>\<open>log\<close> call.\<close>

definition log_written :: "environment \<Rightarrow> string \<Rightarrow> state \<Rightarrow> (string \<rightharpoonup> string)" where
  "log_written E message s =
     (files s)(logFile (logger (self s)) \<mapsto>
        (case files s (logFile (logger (self s))) of None \<Rightarrow> [] | Some old \<Rightarrow> old)
        @ ''['' @ isoNow E (writes s) @ ''] '' @ message @ [CHR 0x0A])"

text \<open>
  Environments for concrete runs of the demo processor: \<^verbatim>\<open>cancel()\<close> arrives during
  the wait after the first item; every call returns 404 and \<^verbatim>\<open>cancel()\<close> arrives
  during the first remote call; the fifth file write (the line for the first item)
  throws; the first item is throttled on every attempt and the second on its first
  attempt only.
\<close>

definition env_cancel_after_first :: environment where
  "env_cancel_after_first =
     env_resolving\<lparr>cancelReq := (\<lambda>i. if i = 0 then Some DuringWait else None)\<rparr>"

definition env_cancel_during_404 :: environment where
  "env_cancel_during_404 =
     (env_rejecting (Some 404))\<lparr>cancelReq := (\<lambda>i. if i = 0 then Some DuringCall else None)\<rparr>"

definition env_log_failure :: environment where
  "env_log_failure = env_resolving\<lparr>writeFails := (\<lambda>k. k = 4)\<rparr>"

definition env_throttled :: environment where
  "env_throttled =
     env_resolving\<lparr>remote := (\<lambda>i a. if i = 0 \<or> a = 1 then Rejected ''Too Many Requests'' (Some 429)
                                   else Resolved 200)\<rparr>"

section \<open>Properties of the rate limiter\<close>

text \<open>
  The invariant of the limiter under a non-negative configuration with
  \<open>baseDelay \<le> maxDelay\<close>: the configuration fields never change, the delay stays
  between \<open>0\<close> and \<open>maxDelay\<close>, it is at least \<open>baseDelay\<close> when the multiplier is
  at least one, and at most \<open>baseDelay\<close> when the multiplier is below one.
\<close>

definition limiter_inv :: "rate_config \<Rightarrow> rate_limiter \<Rightarrow> bool" where
  "limiter_inv config r \<longleftrightarrow>
     baseDelay r = baseDelayMs config \<and>
     maxDelay r = maxDelayMs config \<and>
     backoffMultiplier r = cfgBackoffMultiplier config \<and>
     0 \<le> currentDelay r \<and>
     currentDelay r \<le> maxDelayMs config \<and>
     (if 1 \<le> cfgBackoffMultiplier config
      then baseDelayMs config \<le> currentDelay r
      else currentDelay r \<le> baseDelayMs config)"

lemma limiter_inv_new:
  assumes "0 \<le> baseDelayMs config" "baseDelayMs config \<le> maxDelayMs config"
  shows "limiter_inv config (new_RateLimiter config)"
  using assms by (simp add: limiter_inv_def new_RateLimiter_def)

lemma limiter_inv_onRateLimit:
  assumes base: "0 \<le> baseDelayMs config" "baseDelayMs config \<le> maxDelayMs config"
    and mult: "0 \<le> cfgBackoffMultiplier config"
    and inv: "limiter_inv config r"
  shows "limiter_inv config (snd (onRateLimit r))"
proof -
  let ?c = "currentDelay r" and ?m = "cfgBackoffMultiplier config"
  have c0: "0 \<le> ?c" and cmax: "?c \<le> maxDelayMs config"
    using inv by (simp_all add: limiter_inv_def)
  have prod0: "0 \<le> ?c * ?m"
    using c0 mult by simp
  have lower: "baseDelayMs config \<le> ?c * ?m" if "1 \<le> ?m"
  proof -
    have "baseDelayMs config \<le> ?c"
      using inv that by (simp add: limiter_inv_def)
    also have "?c = ?c * 1" by simp
    also have "\<dots> \<le> ?c * ?m"
      using c0 that by (rule mult_left_mono[rotated])
    finally show ?thesis .
  qed
  have upper: "?c * ?m \<le> baseDelayMs config" if "\<not> 1 \<le> ?m"
  proof -
    have "?c * ?m \<le> ?c * 1"
      using c0 that by (intro mult_left_mono) simp_all
    also have "\<dots> \<le> baseDelayMs config"
      using inv that by (simp add: limiter_inv_def)
    finally show ?thesis .
  qed
  show ?thesis
    using inv base prod0 lower upper
    by (auto simp: limiter_inv_def onRateLimit_def Let_def min_def)
qed

lemma limiter_inv_onSuccess:
  assumes base: "0 \<le> baseDelayMs config" "baseDelayMs config \<le> maxDelayMs config"
    and inv: "limiter_inv config r"
  shows "limiter_inv config (onSuccess r)"
proof (cases "10 \<le> consecutiveSuccesses r + 1 \<and> baseDelay r < currentDelay r")
  case False
  then show ?thesis
    using inv by (auto simp: limiter_inv_def onSuccess_def Let_def)
next
  case True
  let ?c = "currentDelay r" and ?m = "cfgBackoffMultiplier config"
  have above: "baseDelayMs config < ?c"
    using True inv by (simp add: limiter_inv_def)
  have m1: "1 \<le> ?m"
    using above inv by (auto simp: limiter_inv_def split: if_splits)
  have c0: "0 \<le> ?c"
    using inv by (simp add: limiter_inv_def)
  have "?c / ?m \<le> ?c / 1"
    using c0 m1 by (intro divide_left_mono) simp_all
  then have quot: "?c / ?m \<le> maxDelayMs config"
    using inv by (simp add: limiter_inv_def)
  show ?thesis
    using True inv base m1 quot
    by (auto simp: limiter_inv_def onSuccess_def Let_def max_def)
qed

lemma limiter_inv_step:
  assumes "0 \<le> baseDelayMs config" "baseDelayMs config \<le> maxDelayMs config"
    and "0 \<le> cfgBackoffMultiplier config"
    and "limiter_inv config r"
  shows "limiter_inv config (limiter_step r c)"
  using assms
  by (cases c) (simp_all add: limiter_inv_onSuccess limiter_inv_onRateLimit)

lemma limiter_inv_foldl:
  assumes "0 \<le> baseDelayMs config" "baseDelayMs config \<le> maxDelayMs config"
    and "0 \<le> cfgBackoffMultiplier config"
    and "limiter_inv config r"
  shows "limiter_inv config (foldl limiter_step r calls)"
  using assms(4)
proof (induction calls arbitrary: r)
  case Nil
  then show ?case by simp
next
  case (Cons c calls)
  have "limiter_inv config (limiter_step r c)"
    using assms(1-3) Cons.prems by (rule limiter_inv_step)
  then show ?case
    using Cons.IH by simp
qed

text \<open>
  Claim C3, as stated: for every configuration with non-negative components and
  \<open>baseDelay \<le> maxDelay\<close>, the delay stays in \<open>[baseDelay, maxDelay]\<close> after any
  sequence of \<^verbatim>\<open>onSuccess\<close>/\<^verbatim>\<open>onRateLimit\<close> calls. This fails for a multiplier
  below one: with \<open>baseDelay = 100\<close>, \<open>maxDelay = 5000\<close> and multiplier \<open>1/2\<close>, one
  \<^verbatim>\<open>onRateLimit\<close> call sets the delay to \<open>50\<close>.
\<close>

theorem limiter_range_counterexample:
  "0 \<le> baseDelayMs \<lparr>baseDelayMs = 100, maxDelayMs = 5000, cfgBackoffMultiplier = 1/2\<rparr> \<and>
   0 \<le> maxDelayMs \<lparr>baseDelayMs = 100, maxDelayMs = 5000, cfgBackoffMultiplier = 1/2\<rparr> \<and>
   0 \<le> cfgBackoffMultiplier \<lparr>baseDelayMs = 100, maxDelayMs = 5000, cfgBackoffMultiplier = 1/2\<rparr> \<and>
   baseDelayMs \<lparr>baseDelayMs = 100, maxDelayMs = 5000, cfgBackoffMultiplier = 1/2\<rparr>
     \<le> maxDelayMs \<lparr>baseDelayMs = 100, maxDelayMs = 5000, cfgBackoffMultiplier = 1/2\<rparr> \<and>
   currentDelay (limiter_run
       \<lparr>baseDelayMs = 100, maxDelayMs = 5000, cfgBackoffMultiplier = 1/2\<rparr> [OnRateLimit]) = 50 \<and>
   \<not> (baseDelayMs \<lparr>baseDelayMs = 100, maxDelayMs = 5000, cfgBackoffMultiplier = 1/2\<rparr>
       \<le> currentDelay (limiter_run
           \<lparr>baseDelayMs = 100, maxDelayMs = 5000, cfgBackoffMultiplier = 1/2\<rparr> [OnRateLimit]))"
  by (simp add: limiter_run_def new_RateLimiter_def onRateLimit_def Let_def)

text \<open>
  Claim C3, amended: for every configuration with non-negative components and
  \<open>baseDelay \<le> maxDelay\<close>, after any finite sequence of \<^verbatim>\<open>onSuccess\<close> and
  \<^verbatim>\<open>onRateLimit\<close> calls from the initial state the current delay is at least \<open>0\<close> and
  at most \<open>maxDelay\<close>, and it is at least \<open>baseDelay\<close> whenever the multiplier is at
  least one.
\<close>

theorem limiter_range:
  assumes "0 \<le> baseDelayMs config" and "0 \<le> cfgBackoffMultiplier config"
    and "baseDelayMs config \<le> maxDelayMs config"
  shows "0 \<le> currentDelay (limiter_run config calls) \<and>
         currentDelay (limiter_run config calls) \<le> maxDelayMs config \<and>
         (1 \<le> cfgBackoffMultiplier config \<longrightarrow>
            baseDelayMs config \<le> currentDelay (limiter_run config calls))"
proof -
  have "limiter_inv config (limiter_run config calls)"
    unfolding limiter_run_def
    using assms(1,3,2) limiter_inv_new[OF assms(1,3)] by (rule limiter_inv_foldl)
  then show ?thesis
    by (simp add: limiter_inv_def)
qed

theorem limiter_range_witness:
  "0 \<le> currentDelay (limiter_run
       \<lparr>baseDelayMs = 100, maxDelayMs = 5000, cfgBackoffMultiplier = 3/2\<rparr>
       [OnRateLimit, OnRateLimit, OnSuccess]) \<and>
   currentDelay (limiter_run
       \<lparr>baseDelayMs = 100, maxDelayMs = 5000, cfgBackoffMultiplier = 3/2\<rparr>
       [OnRateLimit, OnRateLimit, OnSuccess]) \<le> 5000 \<and>
   100 \<le> currentDelay (limiter_run
       \<lparr>baseDelayMs = 100, maxDelayMs = 5000, cfgBackoffMultiplier = 3/2\<rparr>
       [OnRateLimit, OnRateLimit, OnSuccess])"
  using limiter_range[of "\<lparr>baseDelayMs = 100, maxDelayMs = 5000, cfgBackoffMultiplier = 3/2\<rparr>"
      "[OnRateLimit, OnRateLimit, OnSuccess]"]
  by simp

section \<open>Properties of the retry wrapper\<close>

lemma deleteWithRetry_call_step:
  "deleteWithRetry_call E i ident attempt pending s =
     (case remote E i attempt of
        Resolved result \<Rightarrow>
          (Success result,
           restore_key (environ s ''BLUESHIFT_USER_API_KEY'') (run_pending pending (issue_call ident s)))
      | Rejected msg code \<Rightarrow>
          if attempt < maxAttempts (retry (self s)) \<and> retryable (effective_status code)
          then deleteWithRetry_call E i ident (attempt + 1)
                 (Some (environ s ''BLUESHIFT_USER_API_KEY''))
                 (sleep (retry_delay (retry (self s)) attempt)
                    (run_pending pending (issue_call ident s)))
          else (Failure msg (effective_status code) attempt,
                restore_key (environ s ''BLUESHIFT_USER_API_KEY'')
                  (run_pending pending (issue_call ident s))))"
  by (subst deleteWithRetry_call.simps)
     (auto simp: Let_def issue_call_def effective_status_def retryable_def retry_delay_def
      split: response.splits)

lemma effects_restore_key [simp]: "effects (restore_key k s) = effects s"
  by (simp add: restore_key_def)

lemma emitted_restore_key [simp]: "emitted (restore_key k s) = emitted s"
  by (simp add: restore_key_def)

lemma effects_run_pending [simp]: "effects (run_pending pending s) = effects s"
  by (simp add: run_pending_def split: option.splits)

lemma emitted_run_pending [simp]: "emitted (run_pending pending s) = emitted s"
  by (simp add: run_pending_def split: option.splits)

lemma self_issue_call [simp]: "self (issue_call ident s) = self s"
  by (simp add: issue_call_def)

lemma effects_issue_call [simp]:
  "effects (issue_call ident s) =
     effects s @ [RemoteCall (identifierType (self s)) ident (deleteAll (self s))]"
  by (simp add: issue_call_def)

lemma emitted_issue_call [simp]: "emitted (issue_call ident s) = emitted s"
  by (simp add: issue_call_def)

lemma effects_sleep [simp]: "effects (sleep ms s) = effects s @ [Sleep ms]"
  by (simp add: sleep_def)

lemma self_sleep [simp]: "self (sleep ms s) = self s"
  by (simp add: sleep_def)

lemma emitted_sleep [simp]: "emitted (sleep ms s) = emitted s"
  by (simp add: sleep_def)

lemma deleteWithRetry_call_resolved:
  assumes "remote E i attempt = Resolved result"
  shows "deleteWithRetry_call E i ident attempt pending s =
           (Success result,
            restore_key (environ s ''BLUESHIFT_USER_API_KEY'') (run_pending pending (issue_call ident s)))"
  by (subst deleteWithRetry_call_step) (simp add: assms)

lemma deleteWithRetry_call_final:
  assumes "remote E i attempt = Rejected msg code"
    and "\<not> (attempt < maxAttempts (retry (self s)) \<and> retryable (effective_status code))"
  shows "deleteWithRetry_call E i ident attempt pending s =
           (Failure msg (effective_status code) attempt,
            restore_key (environ s ''BLUESHIFT_USER_API_KEY'') (run_pending pending (issue_call ident s)))"
  using assms(2) by (subst deleteWithRetry_call_step) (auto simp: assms(1))

lemma deleteWithRetry_call_retry:
  assumes "remote E i attempt = Rejected msg code"
    and "attempt < maxAttempts (retry (self s))" and "retryable (effective_status code)"
  shows "deleteWithRetry_call E i ident attempt pending s =
           deleteWithRetry_call E i ident (attempt + 1)
             (Some (environ s ''BLUESHIFT_USER_API_KEY''))
             (sleep (retry_delay (retry (self s)) attempt)
                (run_pending pending (issue_call ident s)))"
  using assms(2,3) by (subst deleteWithRetry_call_step) (simp add: assms(1))

lemma deleteWithRetry_resolved:
  assumes "remote E i attempt = Resolved result"
  shows "deleteWithRetry E i ident attempt s =
           (Success result, restore_key (environ s ''BLUESHIFT_USER_API_KEY'') (issue_call ident s))"
  unfolding deleteWithRetry_def
  by (simp add: deleteWithRetry_call_resolved[OF assms] run_pending_def)

lemma deleteWithRetry_final:
  assumes "remote E i attempt = Rejected msg code"
    and "\<not> (attempt < maxAttempts (retry (self s)) \<and> retryable (effective_status code))"
  shows "deleteWithRetry E i ident attempt s =
           (Failure msg (effective_status code) attempt,
            restore_key (environ s ''BLUESHIFT_USER_API_KEY'') (issue_call ident s))"
  unfolding deleteWithRetry_def
  by (simp add: deleteWithRetry_call_final[OF assms] run_pending_def)

text \<open>
  Outcome, effects, events and the processor do not depend on the process environment
  or on a pending \<^verbatim>\<open>finally\<close> block: two states that agree on everything but the
  environment give the same outcome and again such states.
\<close>

definition environ_apart :: "state \<Rightarrow> state \<Rightarrow> bool" where
  "environ_apart s t \<longleftrightarrow>
     self s = self t \<and> files s = files t \<and> writes s = writes t \<and>
     effects s = effects t \<and> emitted s = emitted t"

lemma environ_apart_refl [simp]: "environ_apart s s"
  by (simp add: environ_apart_def)

lemma deleteWithRetry_call_environ_apart:
  assumes "environ_apart s t"
  shows "fst (deleteWithRetry_call E i ident attempt p s)
           = fst (deleteWithRetry_call E i ident attempt q t) \<and>
         environ_apart (snd (deleteWithRetry_call E i ident attempt p s))
           (snd (deleteWithRetry_call E i ident attempt q t))"
  using assms
proof (induction "nat (maxAttempts (retry (self s)) - attempt)" arbitrary: attempt p q s t
    rule: less_induct)
  case less
  have same: "self s = self t"
    using less.prems by (simp add: environ_apart_def)
  have entered: "environ_apart (run_pending p (issue_call ident s)) (run_pending q (issue_call ident t))"
    using less.prems
    by (simp add: environ_apart_def run_pending_def restore_key_def issue_call_def
        split: option.splits)
  show ?case
  proof (cases "remote E i attempt")
    case (Resolved result)
    show ?thesis
      using entered
      by (simp add: deleteWithRetry_call_resolved[OF Resolved] environ_apart_def restore_key_def)
  next
    case (Rejected msg code)
    show ?thesis
    proof (cases "attempt < maxAttempts (retry (self s)) \<and> retryable (effective_status code)")
      case False
      then have False': "\<not> (attempt < maxAttempts (retry (self t)) \<and> retryable (effective_status code))"
        using same by simp
      show ?thesis
        using entered
        by (simp add: deleteWithRetry_call_final[OF Rejected False]
            deleteWithRetry_call_final[OF Rejected False'] environ_apart_def restore_key_def)
    next
      case True
      then have lt: "attempt < maxAttempts (retry (self s))"
        and rt: "retryable (effective_status code)" by simp_all
      have lt': "attempt < maxAttempts (retry (self t))"
        using lt same by simp
      let ?s' = "sleep (retry_delay (retry (self s)) attempt) (run_pending p (issue_call ident s))"
      let ?t' = "sleep (retry_delay (retry (self t)) attempt) (run_pending q (issue_call ident t))"
      have apart: "environ_apart ?s' ?t'"
        using entered same by (simp add: environ_apart_def sleep_def)
      show ?thesis
        unfolding deleteWithRetry_call_retry[OF Rejected lt rt]
          deleteWithRetry_call_retry[OF Rejected lt' rt]
        using lt apart by (intro less.hyps) simp_all
    qed
  qed
qed

text \<open>
  As far as outcome, effects, events and the processor go, a retried call is the call of
  the next attempt made after the remote call and the suspension.
\<close>

lemma deleteWithRetry_retry:
  assumes "remote E i attempt = Rejected msg code"
    and "attempt < maxAttempts (retry (self s))" and "retryable (effective_status code)"
  shows "fst (deleteWithRetry E i ident attempt s)
           = fst (deleteWithRetry E i ident (attempt + 1)
                   (sleep (retry_delay (retry (self s)) attempt) (issue_call ident s)))"
    and "effects (snd (deleteWithRetry E i ident attempt s))
           = effects (snd (deleteWithRetry E i ident (attempt + 1)
                   (sleep (retry_delay (retry (self s)) attempt) (issue_call ident s))))"
    and "emitted (snd (deleteWithRetry E i ident attempt s))
           = emitted (snd (deleteWithRetry E i ident (attempt + 1)
                   (sleep (retry_delay (retry (self s)) attempt) (issue_call ident s))))"
proof -
  let ?s' = "sleep (retry_delay (retry (self s)) attempt) (issue_call ident s)"
  have unfold: "deleteWithRetry_call E i ident attempt None s =
      deleteWithRetry_call E i ident (attempt + 1) (Some (environ s ''BLUESHIFT_USER_API_KEY'')) ?s'"
    by (simp add: deleteWithRetry_call_retry[OF assms] run_pending_def)
  note apart = deleteWithRetry_call_environ_apart[of ?s' ?s' E i ident "attempt + 1"
      "Some (environ s ''BLUESHIFT_USER_API_KEY'')" None, simplified]
  show "fst (deleteWithRetry E i ident attempt s) = fst (deleteWithRetry E i ident (attempt + 1) ?s')"
    using apart by (simp add: unfold deleteWithRetry_def)
  show "effects (snd (deleteWithRetry E i ident attempt s))
      = effects (snd (deleteWithRetry E i ident (attempt + 1) ?s'))"
    using apart by (simp add: unfold deleteWithRetry_def environ_apart_def)
  show "emitted (snd (deleteWithRetry E i ident attempt s))
      = emitted (snd (deleteWithRetry E i ident (attempt + 1) ?s'))"
    using apart by (simp add: unfold deleteWithRetry_def environ_apart_def)
qed

lemma deleteWithRetry_cases_induct [case_names step]:
  assumes "\<And>attempt s.
      (\<And>msg code. remote E i attempt = Rejected msg code \<Longrightarrow>
          attempt < maxAttempts (retry (self s)) \<Longrightarrow> retryable (effective_status code) \<Longrightarrow>
          P (attempt + 1) (sleep (retry_delay (retry (self s)) attempt) (issue_call ident s)))
      \<Longrightarrow> P attempt s"
  shows "P attempt s"
proof (induction "nat (maxAttempts (retry (self s)) - attempt)" arbitrary: attempt s
    rule: less_induct)
  case less
  show ?case
  proof (rule assms)
    fix msg code
    assume "attempt < maxAttempts (retry (self s))"
    then show "P (attempt + 1) (sleep (retry_delay (retry (self s)) attempt) (issue_call ident s))"
      by (intro less) simp
  qed
qed

lemma deleteWithRetry_effects_prefix:
  "\<exists>rest. effects (snd (deleteWithRetry E i ident attempt s)) =
      effects s @ RemoteCall (identifierType (self s)) ident (deleteAll (self s)) # rest"
proof (induction attempt s rule: deleteWithRetry_cases_induct[where E = E and i = i and ident = ident])
  case (step attempt s)
  show ?case
  proof (cases "remote E i attempt")
    case (Resolved result)
    then show ?thesis by (simp add: deleteWithRetry_resolved)
  next
    case (Rejected msg code)
    show ?thesis
    proof (cases "attempt < maxAttempts (retry (self s)) \<and> retryable (effective_status code)")
      case False
      then show ?thesis using Rejected by (simp add: deleteWithRetry_final)
    next
      case True
      then show ?thesis
        using Rejected step[OF Rejected]
        by (auto simp: deleteWithRetry_retry)
    qed
  qed
qed

lemma retry_schedule_empty [simp]: "k < a \<Longrightarrow> retry_schedule p ident a k = []"
  by (simp add: retry_schedule_def)

lemma retry_schedule_step:
  "a \<le> k \<Longrightarrow> retry_schedule p ident a k =
     RemoteCall (identifierType p) ident (deleteAll p) # Sleep (retry_delay (retry p) a)
       # retry_schedule p ident (a + 1) k"
  by (simp add: retry_schedule_def upto_rec1[of a k])

lemma deleteWithRetry_effects_retrying:
  assumes "k < maxAttempts (retry (self s))"
    and "\<forall>j. attempt \<le> j \<and> j \<le> k \<longrightarrow>
           (\<exists>msg code. remote E i j = Rejected msg code \<and> retryable (effective_status code))"
  shows "\<exists>rest. effects (snd (deleteWithRetry E i ident attempt s)) =
      effects s @ retry_schedule (self s) ident attempt k
        @ RemoteCall (identifierType (self s)) ident (deleteAll (self s)) # rest"
  using assms
proof (induction attempt s rule: deleteWithRetry_cases_induct[where E = E and i = i and ident = ident])
  case (step attempt s)
  show ?case
  proof (cases "attempt \<le> k")
    case False
    then show ?thesis
      using deleteWithRetry_effects_prefix[of E i ident attempt s] by simp
  next
    case True
    then obtain msg code where rej: "remote E i attempt = Rejected msg code"
      and rt: "retryable (effective_status code)"
      using step.prems(2) by blast
    have lt: "attempt < maxAttempts (retry (self s))"
      using True step.prems(1) by simp
    let ?s' = "sleep (retry_delay (retry (self s)) attempt) (issue_call ident s)"
    have "\<exists>rest. effects (snd (deleteWithRetry E i ident (attempt + 1) ?s')) =
      effects ?s' @ retry_schedule (self ?s') ident (attempt + 1) k
        @ RemoteCall (identifierType (self ?s')) ident (deleteAll (self ?s')) # rest"
      using step.prems by (intro step.IH[OF rej lt rt]) simp_all
    then show ?thesis
      using True by (simp add: deleteWithRetry_retry[OF rej lt rt] retry_schedule_step)
  qed
qed

lemma remote_calls_append [simp]: "remote_calls (xs @ ys) = remote_calls xs + remote_calls ys"
  by (simp add: remote_calls_def)

lemma remote_calls_Cons_call [simp]: "remote_calls (RemoteCall t ident d # es) = Suc (remote_calls es)"
  by (simp add: remote_calls_def)

lemma remote_calls_Cons_sleep [simp]: "remote_calls (Sleep ms # es) = remote_calls es"
  by (simp add: remote_calls_def)

lemma remote_calls_Nil [simp]: "remote_calls [] = 0"
  by (simp add: remote_calls_def)

lemma remote_calls_retry_schedule:
  "remote_calls (retry_schedule p ident a k) = nat (k - a + 1)"
proof (induction "nat (k - a + 1)" arbitrary: a)
  case 0
  then show ?case by simp
next
  case (Suc n)
  then have "a \<le> k" and "n = nat (k - (a + 1) + 1)"
    by linarith+
  then show ?case
    using Suc.hyps(1)[of "a + 1"] by (simp add: retry_schedule_step)
qed

lemma retry_schedule_last:
  "a \<le> k \<Longrightarrow> retry_schedule p ident a k =
     retry_schedule p ident a (k - 1)
       @ [RemoteCall (identifierType p) ident (deleteAll p), Sleep (retry_delay (retry p) k)]"
  by (simp add: retry_schedule_def upto_rec2[of a k])

lemma new_effects_append [simp]: "effects s' = effects s @ es \<Longrightarrow> new_effects s s' = es"
  by (simp add: new_effects_def)

lemma retry_delay_nat: "1 \<le> k \<Longrightarrow>
  retry_delay cfg (int k) = initialDelayMs cfg * retryBackoffMultiplier cfg ^ (k - 1)"
  by (simp add: retry_delay_def power_int_def nat_diff_distrib' of_nat_diff)

lemma demo_self [simp]:
  "maxAttempts (retry (self demo_state)) = 3"
  "initialDelayMs (retry (self demo_state)) = 1000"
  "retryBackoffMultiplier (retry (self demo_state)) = 2"
  "identifierType (self demo_state) = ''email''"
  "deleteAll (self demo_state) = False"
  "region (self demo_state) = ''eu''"
  "apiKey (self demo_state) = Some ''secret''"
  "effects demo_state = []"
  by (simp_all add: demo_state_def new_BatchProcessor_def demo_config_def Let_def)

lemma remote_env_rejecting [simp]: "remote (env_rejecting code) i a = Rejected ''API Error'' code"
  by (simp add: env_rejecting_def)

text \<open>
  Claim C7: for a retried item, the suspension inserted after a retryable failure of
  attempt \<open>k\<close> (1-indexed, \<open>k < maxAttempts\<close>) and before attempt \<open>k + 1\<close> is exactly
  \<open>initialDelay * backoffMultiplier ^ (k - 1)\<close>: when the attempts \<open>1, \<dots>, k\<close> fail
  with a retryable status, the effects of the call consist of \<open>k - 1\<close> earlier remote
  calls with their suspensions, then the \<open>k\<close>-th remote call, the suspension of that
  length, and the next remote call.
\<close>

theorem retry_delay_exact:
  assumes "1 \<le> k" and "int k < maxAttempts (retry (self s))"
    and "\<forall>j. 1 \<le> j \<and> j \<le> int k \<longrightarrow>
           (\<exists>msg code. remote E i j = Rejected msg code \<and> retryable (effective_status code))"
  shows "\<exists>before rest.
           new_effects s (snd (deleteWithRetry E i ident 1 s)) =
             before
             @ [RemoteCall (identifierType (self s)) ident (deleteAll (self s)),
                Sleep (initialDelayMs (retry (self s))
                       * retryBackoffMultiplier (retry (self s)) ^ (k - 1)),
                RemoteCall (identifierType (self s)) ident (deleteAll (self s))]
             @ rest
           \<and> remote_calls before = k - 1"
proof -
  obtain rest where eff: "effects (snd (deleteWithRetry E i ident 1 s)) =
      effects s @ retry_schedule (self s) ident 1 (int k)
        @ RemoteCall (identifierType (self s)) ident (deleteAll (self s)) # rest"
    using deleteWithRetry_effects_retrying[OF assms(2), of 1 E i ident] assms(3) by blast
  have split: "retry_schedule (self s) ident 1 (int k) =
      retry_schedule (self s) ident 1 (int k - 1)
        @ [RemoteCall (identifierType (self s)) ident (deleteAll (self s)),
           Sleep (initialDelayMs (retry (self s)) * retryBackoffMultiplier (retry (self s)) ^ (k - 1))]"
    using assms(1) by (simp add: retry_schedule_last retry_delay_nat)
  have count: "remote_calls (retry_schedule (self s) ident 1 (int k - 1)) = k - 1"
    using assms(1) by (simp add: remote_calls_retry_schedule)
  show ?thesis
    using eff split count
    by (intro exI[of _ "retry_schedule (self s) ident 1 (int k - 1)"] exI[of _ rest]) simp
qed

theorem retry_delay_exact_witness:
  "(1::nat) \<le> 2 \<and> int 2 < maxAttempts (retry (self demo_state)) \<and>
   remote (env_rejecting (Some 429)) 0 1 = Rejected ''API Error'' (Some 429) \<and>
   remote (env_rejecting (Some 429)) 0 2 = Rejected ''API Error'' (Some 429) \<and>
   retryable (effective_status (Some 429)) \<and>
   (\<exists>before rest.
      new_effects demo_state
        (snd (deleteWithRetry (env_rejecting (Some 429)) 0 (Some ''a@example.com'') 1 demo_state)) =
        before
        @ [RemoteCall ''email'' (Some ''a@example.com'') False,
           Sleep 2000,
           RemoteCall ''email'' (Some ''a@example.com'') False]
        @ rest
      \<and> remote_calls before = 1)"
  using retry_delay_exact[of 2 demo_state "env_rejecting (Some 429)" 0 "Some ''a@example.com''"]
  by (simp add: retryable_def effective_status_def)

lemma deleteWithRetry_failing:
  assumes "\<forall>a. \<exists>msg code. remote E i a = Rejected msg code \<and> retryable (effective_status code)"
    and "attempt \<le> maxAttempts (retry (self s))"
  shows "(\<exists>msg code. remote E i (maxAttempts (retry (self s))) = Rejected msg code \<and>
            fst (deleteWithRetry E i ident attempt s)
              = Failure msg (effective_status code) (maxAttempts (retry (self s)))) \<and>
         effects (snd (deleteWithRetry E i ident attempt s)) =
           effects s @ retry_schedule (self s) ident attempt (maxAttempts (retry (self s)) - 1)
             @ [RemoteCall (identifierType (self s)) ident (deleteAll (self s))]"
  using assms(2)
proof (induction attempt s rule: deleteWithRetry_cases_induct[where E = E and i = i and ident = ident])
  case (step attempt s)
  obtain msg code where rej: "remote E i attempt = Rejected msg code"
    and rt: "retryable (effective_status code)"
    using assms(1) by blast
  show ?case
  proof (cases "attempt < maxAttempts (retry (self s))")
    case False
    then have eq: "attempt = maxAttempts (retry (self s))"
      using step.prems by simp
    show ?thesis
      using False rej by (simp add: deleteWithRetry_final[OF rej] eq[symmetric])
  next
    case True
    let ?s' = "sleep (retry_delay (retry (self s)) attempt) (issue_call ident s)"
    have ih: "(\<exists>msg code. remote E i (maxAttempts (retry (self ?s'))) = Rejected msg code \<and>
            fst (deleteWithRetry E i ident (attempt + 1) ?s')
              = Failure msg (effective_status code) (maxAttempts (retry (self ?s')))) \<and>
         effects (snd (deleteWithRetry E i ident (attempt + 1) ?s')) =
           effects ?s' @ retry_schedule (self ?s') ident (attempt + 1) (maxAttempts (retry (self ?s')) - 1)
             @ [RemoteCall (identifierType (self ?s')) ident (deleteAll (self ?s'))]"
      using True by (intro step.IH[OF rej True rt]) simp
    show ?thesis
      using True ih
      by (simp add: deleteWithRetry_retry[OF rej True rt] retry_schedule_step[of attempt])
  qed
qed

text \<open>
  Claim C4: with \<open>maxAttempts \<ge> 1\<close>, an item whose remote call fails with status 500
  on every attempt causes exactly \<open>maxAttempts\<close> remote calls and ends in a failure
  whose attempt count is \<open>maxAttempts\<close>; an item whose remote call fails with status
  404 causes exactly one remote call, no suspension, and an immediate failure.
\<close>

theorem attempts_500_and_404:
  "(1 \<le> maxAttempts (retry (self s)) \<and> (\<forall>a. \<exists>msg. remote E i a = Rejected msg (Some 500)) \<longrightarrow>
      (\<exists>msg. fst (deleteWithRetry E i ident 1 s)
                = Failure msg 500 (maxAttempts (retry (self s)))) \<and>
      remote_calls (new_effects s (snd (deleteWithRetry E i ident 1 s)))
        = nat (maxAttempts (retry (self s)))) \<and>
   (remote E i 1 = Rejected msg' (Some 404) \<longrightarrow>
      deleteWithRetry E i ident 1 s
        = (Failure msg' 404 1,
           restore_key (environ s ''BLUESHIFT_USER_API_KEY'') (issue_call ident s)) \<and>
      new_effects s (snd (deleteWithRetry E i ident 1 s))
        = [RemoteCall (identifierType (self s)) ident (deleteAll (self s))])"
proof (intro conjI impI)
  assume a: "1 \<le> maxAttempts (retry (self s)) \<and> (\<forall>a. \<exists>msg. remote E i a = Rejected msg (Some 500))"
  have all: "\<forall>a. \<exists>msg code. remote E i a = Rejected msg code \<and> retryable (effective_status code)"
  proof
    fix a
    obtain msg where "remote E i a = Rejected msg (Some 500)"
      using a by blast
    then show "\<exists>msg code. remote E i a = Rejected msg code \<and> retryable (effective_status code)"
      by (simp add: retryable_def effective_status_def)
  qed
  note fail = deleteWithRetry_failing[OF all, of 1 s ident]
  obtain msg code where last: "remote E i (maxAttempts (retry (self s))) = Rejected msg code"
    and out: "fst (deleteWithRetry E i ident 1 s)
              = Failure msg (effective_status code) (maxAttempts (retry (self s)))"
    using fail a by blast
  obtain msg2 where "remote E i (maxAttempts (retry (self s))) = Rejected msg2 (Some 500)"
    using a by blast
  then have "effective_status code = 500"
    using last by (simp add: effective_status_def)
  then show "\<exists>msg. fst (deleteWithRetry E i ident 1 s)
                = Failure msg 500 (maxAttempts (retry (self s)))"
    using out by simp
  have "effects (snd (deleteWithRetry E i ident 1 s)) =
           effects s @ retry_schedule (self s) ident 1 (maxAttempts (retry (self s)) - 1)
             @ [RemoteCall (identifierType (self s)) ident (deleteAll (self s))]"
    using fail a by blast
  then show "remote_calls (new_effects s (snd (deleteWithRetry E i ident 1 s)))
        = nat (maxAttempts (retry (self s)))"
    using a by (simp add: remote_calls_retry_schedule nat_diff_distrib')
next
  assume r: "remote E i 1 = Rejected msg' (Some 404)"
  have nr: "\<not> (1 < maxAttempts (retry (self s)) \<and> retryable (effective_status (Some 404)))"
    by (simp add: retryable_def effective_status_def)
  have eq: "deleteWithRetry E i ident 1 s
        = (Failure msg' 404 1,
           restore_key (environ s ''BLUESHIFT_USER_API_KEY'') (issue_call ident s))"
    using deleteWithRetry_final[OF r nr] by (simp add: effective_status_def)
  show "deleteWithRetry E i ident 1 s
        = (Failure msg' 404 1,
           restore_key (environ s ''BLUESHIFT_USER_API_KEY'') (issue_call ident s))"
    by (rule eq)
  show "new_effects s (snd (deleteWithRetry E i ident 1 s))
        = [RemoteCall (identifierType (self s)) ident (deleteAll (self s))]"
    by (simp add: eq)
qed

theorem attempts_500_and_404_witness:
  "1 \<le> maxAttempts (retry (self demo_state)) \<and>
   (\<forall>a. \<exists>msg. remote (env_rejecting (Some 500)) 0 a = Rejected msg (Some 500)) \<and>
   (\<exists>msg. fst (deleteWithRetry (env_rejecting (Some 500)) 0 (Some ''a@example.com'') 1 demo_state)
            = Failure msg 500 3) \<and>
   remote_calls (new_effects demo_state
       (snd (deleteWithRetry (env_rejecting (Some 500)) 0 (Some ''a@example.com'') 1 demo_state))) = 3 \<and>
   remote (env_rejecting (Some 404)) 0 1 = Rejected ''API Error'' (Some 404) \<and>
   fst (deleteWithRetry (env_rejecting (Some 404)) 0 (Some ''a@example.com'') 1 demo_state)
     = Failure ''API Error'' 404 1 \<and>
   new_effects demo_state
       (snd (deleteWithRetry (env_rejecting (Some 404)) 0 (Some ''a@example.com'') 1 demo_state))
     = [RemoteCall ''email'' (Some ''a@example.com'') False]"
  using attempts_500_and_404[of demo_state "env_rejecting (Some 500)" 0 "Some ''a@example.com''"]
    attempts_500_and_404[of demo_state "env_rejecting (Some 404)" 0 "Some ''a@example.com''" "''API Error''"]
  by simp

lemma deleteWithRetry_call_same_status:
  assumes "\<And>a. case remote E i a of
             Resolved r \<Rightarrow> remote E' i a = Resolved r
           | Rejected m c \<Rightarrow> (\<exists>c'. remote E' i a = Rejected m c' \<and> effective_status c' = effective_status c)"
  shows "deleteWithRetry_call E' i ident attempt pending s
           = deleteWithRetry_call E i ident attempt pending s"
proof (induction "nat (maxAttempts (retry (self s)) - attempt)" arbitrary: attempt pending s
    rule: less_induct)
  case less
  show ?case
  proof (cases "remote E i attempt")
    case (Resolved result)
    then have "remote E' i attempt = Resolved result"
      using assms[of attempt] by simp
    then show ?thesis
      using Resolved by (simp add: deleteWithRetry_call_resolved)
  next
    case (Rejected msg code)
    then obtain c' where r': "remote E' i attempt = Rejected msg c'"
      and st: "effective_status c' = effective_status code"
      using assms[of attempt] by auto
    show ?thesis
    proof (cases "attempt < maxAttempts (retry (self s)) \<and> retryable (effective_status code)")
      case False
      then show ?thesis
        using deleteWithRetry_call_final[OF Rejected, of s ident pending]
          deleteWithRetry_call_final[OF r', of s ident pending] st
        by simp
    next
      case True
      then have lt: "attempt < maxAttempts (retry (self s))"
        and rt: "retryable (effective_status code)" and rt': "retryable (effective_status c')"
        using st by simp_all
      show ?thesis
        unfolding deleteWithRetry_call_retry[OF Rejected lt rt]
          deleteWithRetry_call_retry[OF r' lt rt']
        using lt by (intro less.hyps) simp
    qed
  qed
qed

lemma deleteWithRetry_same_status:
  assumes "\<And>a. case remote E i a of
             Resolved r \<Rightarrow> remote E' i a = Resolved r
           | Rejected m c \<Rightarrow> (\<exists>c'. remote E' i a = Rejected m c' \<and> effective_status c' = effective_status c)"
  shows "deleteWithRetry E' i ident attempt s = deleteWithRetry E i ident attempt s"
  unfolding deleteWithRetry_def using assms by (rule deleteWithRetry_call_same_status)

text \<open>
  Claim C9: an error of the remote call that carries no status is treated as status 500.
  The call behaves as if that attempt had rejected with status 500; while
  \<open>attempt < maxAttempts\<close> the attempt is followed by the suspension and a further remote
  call, whose result is the result of the call; otherwise the result is a failure with
  status 500 and this attempt number.
\<close>

theorem missing_status_is_500:
  assumes "remote E i attempt = Rejected msg None"
  shows "deleteWithRetry (with_response E i attempt (Rejected msg (Some 500))) i ident attempt s
           = deleteWithRetry E i ident attempt s \<and>
         (if attempt < maxAttempts (retry (self s))
          then fst (deleteWithRetry E i ident attempt s)
                 = fst (deleteWithRetry E i ident (attempt + 1)
                         (sleep (retry_delay (retry (self s)) attempt) (issue_call ident s))) \<and>
               (\<exists>rest. new_effects s (snd (deleteWithRetry E i ident attempt s)) =
                  RemoteCall (identifierType (self s)) ident (deleteAll (self s))
                  # Sleep (retry_delay (retry (self s)) attempt)
                  # RemoteCall (identifierType (self s)) ident (deleteAll (self s)) # rest)
          else deleteWithRetry E i ident attempt s =
                 (Failure msg 500 attempt,
                  restore_key (environ s ''BLUESHIFT_USER_API_KEY'') (issue_call ident s)))"
proof
  have "deleteWithRetry (with_response E i attempt (Rejected msg (Some 500))) i ident attempt s
          = deleteWithRetry E i ident attempt s"
  proof (rule deleteWithRetry_same_status)
    fix a
    show "case remote E i a of
             Resolved r \<Rightarrow> remote (with_response E i attempt (Rejected msg (Some 500))) i a = Resolved r
           | Rejected m c \<Rightarrow> (\<exists>c'. remote (with_response E i attempt (Rejected msg (Some 500))) i a
                                  = Rejected m c' \<and> effective_status c' = effective_status c)"
      using assms
      by (cases "a = attempt")
         (auto simp: with_response_def effective_status_def split: response.splits)
  qed
  then show "deleteWithRetry (with_response E i attempt (Rejected msg (Some 500))) i ident attempt s
           = deleteWithRetry E i ident attempt s"
    by simp
next
  have st: "effective_status None = 500" and rt: "retryable (effective_status None)"
    by (simp_all add: effective_status_def retryable_def)
  show "if attempt < maxAttempts (retry (self s))
          then fst (deleteWithRetry E i ident attempt s)
                 = fst (deleteWithRetry E i ident (attempt + 1)
                         (sleep (retry_delay (retry (self s)) attempt) (issue_call ident s))) \<and>
               (\<exists>rest. new_effects s (snd (deleteWithRetry E i ident attempt s)) =
                  RemoteCall (identifierType (self s)) ident (deleteAll (self s))
                  # Sleep (retry_delay (retry (self s)) attempt)
                  # RemoteCall (identifierType (self s)) ident (deleteAll (self s)) # rest)
          else deleteWithRetry E i ident attempt s =
                 (Failure msg 500 attempt,
                  restore_key (environ s ''BLUESHIFT_USER_API_KEY'') (issue_call ident s))"
  proof (cases "attempt < maxAttempts (retry (self s))")
    case True
    let ?s' = "sleep (retry_delay (retry (self s)) attempt) (issue_call ident s)"
    obtain rest where "effects (snd (deleteWithRetry E i ident (attempt + 1) ?s')) =
      effects ?s' @ RemoteCall (identifierType (self ?s')) ident (deleteAll (self ?s')) # rest"
      using deleteWithRetry_effects_prefix[of E i ident "attempt + 1" ?s'] by blast
    then show ?thesis
      using True by (simp add: deleteWithRetry_retry[OF assms True rt])
  next
    case False
    then show ?thesis
      using deleteWithRetry_final[OF assms, of s ident] st by simp
  qed
qed

theorem missing_status_is_500_witness:
  "remote (env_rejecting None) 0 1 = Rejected ''API Error'' None \<and>
   remote (env_rejecting None) 0 3 = Rejected ''API Error'' None \<and>
   (\<exists>rest. new_effects demo_state
       (snd (deleteWithRetry (env_rejecting None) 0 (Some ''a@example.com'') 1 demo_state)) =
      RemoteCall ''email'' (Some ''a@example.com'') False # Sleep 1000
      # RemoteCall ''email'' (Some ''a@example.com'') False # rest) \<and>
   fst (deleteWithRetry (env_rejecting None) 0 (Some ''a@example.com'') 3 demo_state)
     = Failure ''API Error'' 500 3"
  using missing_status_is_500[of "env_rejecting None" 0 1 "''API Error''" "Some ''a@example.com''" demo_state]
    missing_status_is_500[of "env_rejecting None" 0 3 "''API Error''" "Some ''a@example.com''" demo_state]
  by (simp add: retry_delay_def)

section \<open>The process environment\<close>

text \<open>What a \<^verbatim>\<open>finally\<close> block that has saved the value \<open>k\<close> leaves in the variable.\<close>

definition kept_key :: "string option \<Rightarrow> string option" where
  "kept_key k = (if truthy k then k else None)"

lemma kept_key_idem [simp]: "kept_key (kept_key k) = kept_key k"
  by (simp add: kept_key_def truthy_def)

lemma environ_restore_key_KEY:
  "environ (restore_key k s) ''BLUESHIFT_USER_API_KEY'' = kept_key k"
  by (simp add: restore_key_def kept_key_def)

lemma environ_restore_key_other:
  "v \<noteq> ''BLUESHIFT_USER_API_KEY'' \<Longrightarrow> environ (restore_key k s) v = environ s v"
  by (simp add: restore_key_def)

lemma environ_entered_KEY:
  "environ (run_pending pending (issue_call ident s)) ''BLUESHIFT_USER_API_KEY'' =
     (case pending of None \<Rightarrow> Some (env_string (apiKey (self s))) | Some c \<Rightarrow> kept_key c)"
  by (simp add: run_pending_def environ_restore_key_KEY issue_call_def split: option.splits)

lemma environ_entered_REGION:
  "environ (run_pending pending (issue_call ident s)) ''BLUESHIFT_REGION'' = Some (region (self s))"
  by (simp add: run_pending_def environ_restore_key_other issue_call_def split: option.splits)

lemma deleteWithRetry_call_region:
  "environ (snd (deleteWithRetry_call E i ident attempt pending s)) ''BLUESHIFT_REGION''
     = Some (region (self s))"
proof (induction "nat (maxAttempts (retry (self s)) - attempt)" arbitrary: attempt pending s
    rule: less_induct)
  case less
  show ?case
  proof (cases "remote E i attempt")
    case (Resolved result)
    then show ?thesis
      by (simp add: deleteWithRetry_call_resolved environ_restore_key_other environ_entered_REGION)
  next
    case (Rejected msg code)
    show ?thesis
    proof (cases "attempt < maxAttempts (retry (self s)) \<and> retryable (effective_status code)")
      case False
      then show ?thesis
        using Rejected
        by (simp add: deleteWithRetry_call_final environ_restore_key_other environ_entered_REGION)
    next
      case True
      then have lt: "attempt < maxAttempts (retry (self s))"
        and rt: "retryable (effective_status code)" by simp_all
      let ?s' = "sleep (retry_delay (retry (self s)) attempt)
                   (run_pending pending (issue_call ident s))"
      have "environ (snd (deleteWithRetry_call E i ident (attempt + 1)
                (Some (environ s ''BLUESHIFT_USER_API_KEY'')) ?s')) ''BLUESHIFT_REGION''
              = Some (region (self ?s'))"
        using lt by (intro less.hyps) simp
      then show ?thesis
        by (simp add: deleteWithRetry_call_retry[OF Rejected lt rt])
    qed
  qed
qed

text \<open>
  The variable after a call: the invocation that makes the last remote call restores what
  it saved on entry, which is the original value when the number of remote calls is odd
  and the processor's key (or the value that a pending caller saved) when it is even.
\<close>

lemma deleteWithRetry_call_key:
  "environ (snd (deleteWithRetry_call E i ident attempt pending s)) ''BLUESHIFT_USER_API_KEY'' =
     (if odd (remote_calls (new_effects s (snd (deleteWithRetry E i ident attempt s))))
      then kept_key (environ s ''BLUESHIFT_USER_API_KEY'')
      else kept_key (case pending of None \<Rightarrow> Some (env_string (apiKey (self s))) | Some c \<Rightarrow> c))"
proof (induction "nat (maxAttempts (retry (self s)) - attempt)" arbitrary: attempt pending s
    rule: less_induct)
  case less
  show ?case
  proof (cases "remote E i attempt")
    case (Resolved result)
    then show ?thesis
      by (simp add: deleteWithRetry_call_resolved deleteWithRetry_resolved environ_restore_key_KEY)
  next
    case (Rejected msg code)
    show ?thesis
    proof (cases "attempt < maxAttempts (retry (self s)) \<and> retryable (effective_status code)")
      case False
      then show ?thesis
        using Rejected
        by (simp add: deleteWithRetry_call_final deleteWithRetry_final environ_restore_key_KEY)
    next
      case True
      then have lt: "attempt < maxAttempts (retry (self s))"
        and rt: "retryable (effective_status code)" by simp_all
      let ?k = "environ s ''BLUESHIFT_USER_API_KEY''"
      let ?d = "retry_delay (retry (self s)) attempt"
      let ?s' = "sleep ?d (run_pending pending (issue_call ident s))"
      let ?t' = "sleep ?d (issue_call ident s)"
      let ?n = "remote_calls (new_effects ?s' (snd (deleteWithRetry E i ident (attempt + 1) ?s')))"
      have ih: "environ (snd (deleteWithRetry_call E i ident (attempt + 1) (Some ?k) ?s'))
                  ''BLUESHIFT_USER_API_KEY'' =
                (if odd ?n then kept_key (environ ?s' ''BLUESHIFT_USER_API_KEY'') else kept_key ?k)"
        using less.hyps[of ?s' "attempt + 1" "Some ?k"] lt by simp
      have key': "environ ?s' ''BLUESHIFT_USER_API_KEY'' =
          (case pending of None \<Rightarrow> Some (env_string (apiKey (self s))) | Some c \<Rightarrow> kept_key c)"
        using environ_entered_KEY[of pending ident s] by (simp add: sleep_def)
      obtain rest where rest: "effects (snd (deleteWithRetry E i ident (attempt + 1) ?t')) =
          effects ?t' @ RemoteCall (identifierType (self ?t')) ident (deleteAll (self ?t')) # rest"
        using deleteWithRetry_effects_prefix[of E i ident "attempt + 1" ?t'] by blast
      have apart: "environ_apart ?s' ?t'"
        by (simp add: environ_apart_def sleep_def run_pending_def restore_key_def issue_call_def
            split: option.splits)
      have same: "effects (snd (deleteWithRetry E i ident (attempt + 1) ?s'))
          = effects (snd (deleteWithRetry E i ident (attempt + 1) ?t'))"
        using deleteWithRetry_call_environ_apart[OF apart, of E i ident "attempt + 1" None None]
        by (simp add: deleteWithRetry_def environ_apart_def)
      have n: "?n = Suc (remote_calls rest)"
        using rest same by simp
      have total: "remote_calls (new_effects s (snd (deleteWithRetry E i ident attempt s)))
          = Suc (Suc (remote_calls rest))"
        using rest by (simp add: deleteWithRetry_retry(2)[OF Rejected lt rt])
      show ?thesis
        unfolding deleteWithRetry_call_retry[OF Rejected lt rt] ih key' n total
        by (simp split: option.splits)
    qed
  qed
qed

lemma deleteWithRetry_key:
  "environ (snd (deleteWithRetry E i ident attempt s)) ''BLUESHIFT_USER_API_KEY'' =
     (if odd (remote_calls (new_effects s (snd (deleteWithRetry E i ident attempt s))))
      then kept_key (environ s ''BLUESHIFT_USER_API_KEY'')
      else kept_key (Some (env_string (apiKey (self s)))))"
  using deleteWithRetry_call_key[of E i ident attempt None s]
  by (simp add: deleteWithRetry_def)

lemma deleteWithRetry_region:
  "environ (snd (deleteWithRetry E i ident attempt s)) ''BLUESHIFT_REGION'' = Some (region (self s))"
  by (simp add: deleteWithRetry_def deleteWithRetry_call_region)

lemma environ_demo_state_with_key [simp]:
  "environ (demo_state_with_key k) = [''BLUESHIFT_USER_API_KEY'' \<mapsto> k]"
  "self (demo_state_with_key k) = self demo_state"
  "effects (demo_state_with_key k) = []"
  by (simp_all add: demo_state_with_key_def)

lemma environ_demo_state [simp]: "environ demo_state = Map.empty"
  by (simp add: demo_state_def)

text \<open>
  A call that makes a single remote call leaves the variable as it found it, unless it
  found the empty string, which it removes.
\<close>

lemma single_call_keeps_key:
  "environ (snd (deleteWithRetry env_resolving 0 (Some ''a@example.com'') 1
      (demo_state_with_key ''original''))) ''BLUESHIFT_USER_API_KEY'' = Some ''original'' \<and>
   environ (snd (deleteWithRetry (env_rejecting (Some 404)) 0 (Some ''a@example.com'') 1
      demo_state)) ''BLUESHIFT_USER_API_KEY'' = None \<and>
   environ (snd (deleteWithRetry env_resolving 0 (Some ''a@example.com'') 1
      (demo_state_with_key []))) ''BLUESHIFT_USER_API_KEY'' = None"
  by (simp add: deleteWithRetry_resolved deleteWithRetry_final env_resolving_def
      environ_restore_key_KEY kept_key_def truthy_def retryable_def effective_status_def)

text \<open>
  Claim C10 (not met by the code): every call of \<^verbatim>\<open>deleteWithRetry\<close> restores
  \<^verbatim>\<open>BLUESHIFT_USER_API_KEY\<close> to its value from before the call, on the success and on
  the failure path. For an item whose first remote call is rejected with status 429 and
  whose second one succeeds, the variable held \<^verbatim>\<open>original\<close> before the call and holds
  the processor's key after it; had it been absent before, it is set to the processor's
  key after the call. The same happens on the failure path of a processor with
  \<open>maxAttempts = 2\<close>.
\<close>

theorem retried_call_leaves_job_key:
  "environ (demo_state_with_key ''original'') ''BLUESHIFT_USER_API_KEY'' = Some ''original'' \<and>
   fst (deleteWithRetry env_throttled 1 (Some ''b@example.com'') 1 (demo_state_with_key ''original''))
     = Success 200 \<and>
   effects (snd (deleteWithRetry env_throttled 1 (Some ''b@example.com'') 1
       (demo_state_with_key ''original'')))
     = [RemoteCall ''email'' (Some ''b@example.com'') False, Sleep 1000,
        RemoteCall ''email'' (Some ''b@example.com'') False] \<and>
   environ (snd (deleteWithRetry env_throttled 1 (Some ''b@example.com'') 1
       (demo_state_with_key ''original''))) ''BLUESHIFT_USER_API_KEY'' = Some ''secret'' \<and>
   environ demo_state ''BLUESHIFT_USER_API_KEY'' = None \<and>
   environ (snd (deleteWithRetry env_throttled 1 (Some ''b@example.com'') 1 demo_state))
     ''BLUESHIFT_USER_API_KEY'' = Some ''secret'' \<and>
   fst (deleteWithRetry (env_rejecting (Some 500)) 0 (Some ''a@example.com'') 1
          (demo_state_two_attempts ''original'')) = Failure ''API Error'' 500 2 \<and>
   environ (snd (deleteWithRetry (env_rejecting (Some 500)) 0 (Some ''a@example.com'') 1
          (demo_state_two_attempts ''original''))) ''BLUESHIFT_USER_API_KEY'' = Some ''secret''"
  by (simp add: deleteWithRetry_def deleteWithRetry_call_step run_pending_def restore_key_def
      issue_call_def sleep_def truthy_def env_string_def effective_status_def retryable_def
      retry_delay_def env_throttled_def demo_state_two_attempts_def)

section \<open>Properties of the logger\<close>

lemma lines_from_plain:
  "\<not> has_line_feed xs \<Longrightarrow> lines_from acc (xs @ ys) = lines_from (rev xs @ acc) ys"
  by (induction xs arbitrary: acc) (auto simp: has_line_feed_def)

lemma lines_plain: "\<not> has_line_feed xs \<Longrightarrow> lines xs = [xs]"
  using lines_from_plain[of xs "[]" "[]"] by (simp add: lines_def)

lemma lines_first:
  "\<not> has_line_feed xs \<Longrightarrow> lines (xs @ CHR 0x0A # ys) = xs # lines ys"
  using lines_from_plain[of xs "[]" "CHR 0x0A # ys"] by (simp add: lines_def)

lemma lines_join:
  assumes "rows \<noteq> []" and "\<forall>r \<in> set rows. \<not> has_line_feed r"
  shows "lines (join [CHR 0x0A] rows) = rows"
  using assms
proof (induction "[CHR 0x0A]" rows rule: join.induct)
  case 1
  then show ?case by simp
next
  case (2 x)
  then show ?case by (simp add: lines_plain)
next
  case (3 x y ys)
  then show ?case by (simp add: lines_first)
qed

lemma digit_not_line_feed: "k < 10 \<Longrightarrow> ''0123456789'' ! k \<noteq> CHR 0x0A"
proof -
  assume "k < 10"
  then have "''0123456789'' ! k \<in> set ''0123456789''"
    by (intro nth_mem) simp
  then show ?thesis by auto
qed

lemma string_of_nat_plain: "\<not> has_line_feed (string_of_nat n)"
proof (induction n rule: string_of_nat.induct)
  case (1 n)
  show ?case
  proof (cases "n < 10")
    case True
    then show ?thesis
      using digit_not_line_feed[of n]
      by (subst string_of_nat.simps) (auto simp: has_line_feed_def)
  next
    case False
    then show ?thesis
      using 1 digit_not_line_feed[of "n mod 10"]
      by (subst string_of_nat.simps) (auto simp: has_line_feed_def)
  qed
qed

lemma string_of_int_plain: "\<not> has_line_feed (string_of_int k)"
  using string_of_nat_plain by (simp add: string_of_int_def has_line_feed_def)

lemma csv_row_plain:
  assumes "\<not> has_line_feed (js_string (frIdentifier r))" and "\<not> has_line_feed (frError r)"
  shows "\<not> has_line_feed (csv_row r)"
  using assms string_of_int_plain[of "frStatus r"] by (simp add: csv_row_def has_line_feed_def)

lemma lines_csv_text:
  assumes "rs \<noteq> []" and "\<not> has_line_feed colName"
    and "\<forall>r \<in> set rs. \<not> has_line_feed (js_string (frIdentifier r)) \<and> \<not> has_line_feed (frError r)"
  shows "lines (csv_text colName rs) = (colName @ '',error,status'') # map csv_row rs"
proof -
  have header: "\<not> has_line_feed (colName @ '',error,status'')"
    using assms(2) by (simp add: has_line_feed_def)
  have rows: "lines (join [CHR 0x0A] (map csv_row rs)) = map csv_row rs"
    using assms(1,3) by (intro lines_join) (simp_all add: csv_row_plain)
  show ?thesis
    using lines_first[OF header, of "join [CHR 0x0A] (map csv_row rs)"] rows
    by (simp add: csv_text_def)
qed

lemma saveFailedRecords_written:
  assumes "failedRecords (logger (self s)) \<noteq> []" and "\<not> writeFails E (writes s)"
  shows "saveFailedRecords E colName s =
           (Inr (Some (failedRecordsFile (logger (self s)))),
            s\<lparr>files := (files s)(failedRecordsFile (logger (self s))
                     \<mapsto> csv_text colName (failedRecords (logger (self s)))),
              writes := writes s + 1\<rparr>)"
  using assms
  by (simp add: saveFailedRecords_def Let_def andThen_def writeFileSync_def csv_text_def)

lemma demo_failed_simps [simp]:
  "failedRecords (logger (self (demo_failed ident)))
     = [\<lparr>frIdentifier = Some ident, frError = ''API Error'', frStatus = 404\<rparr>]"
  "failedRecordsFile (logger (self (demo_failed ident)))
     = ''./logs/failed-records-2026-01-01T00-00-00.csv''"
  "writes (demo_failed ident) = 0"
  "files (demo_failed ident) = Map.empty"
  by (simp_all add: demo_failed_def addFailedRecord_def demo_state_def new_BatchProcessor_def
      demo_config_def new_Logger_def Let_def)

lemma demo_state_no_failures [simp]: "failedRecords (logger (self demo_state)) = []"
  by (simp add: demo_state_def new_BatchProcessor_def demo_config_def new_Logger_def Let_def)

lemma writeFails_env_resolving [simp]: "writeFails env_resolving k = False"
  by (simp add: env_resolving_def)

lemma string_of_int_404 [simp]: "string_of_int 404 = ''404''"
  by (simp add: string_of_int_def string_of_nat.simps)

text \<open>
  Claim C8, as stated: with \<open>n \<ge> 1\<close> recorded failures the file has \<open>n + 1\<close> lines.
  The fields are written between quotes without any escaping, so a recorded identifier
  that contains a line feed (a quoted multi-line field of the input) spreads its row over
  two lines: one failure with the identifier \<^verbatim>\<open>a\<close>, line feed, \<^verbatim>\<open>b\<close> gives a file
  of three lines.
\<close>

theorem saveFailedRecords_lines_counterexample:
  "length (failedRecords (logger (self (demo_failed (''a'' @ [CHR 0x0A] @ ''b''))))) = 1 \<and>
   fst (saveFailedRecords env_resolving ''email'' (demo_failed (''a'' @ [CHR 0x0A] @ ''b'')))
     = Inr (Some ''./logs/failed-records-2026-01-01T00-00-00.csv'') \<and>
   map_option lines
     (files (snd (saveFailedRecords env_resolving ''email'' (demo_failed (''a'' @ [CHR 0x0A] @ ''b''))))
        ''./logs/failed-records-2026-01-01T00-00-00.csv'')
     = Some [''email,error,status'', [CHR 0x22] @ ''a'', ''b'' @ [CHR 0x22] @ '','' @ [CHR 0x22] @ ''API Error'' @ [CHR 0x22] @ '',404'']"
  by (simp add: saveFailedRecords_written csv_text_def csv_row_def js_string_def lines_def)

text \<open>
  Claim C8, amended: if the failure collection is empty, \<^verbatim>\<open>saveFailedRecords\<close> writes
  nothing and returns no path. If it holds \<open>n \<ge> 1\<close> failures and the write does not
  throw, exactly one file is written, at the logger's path, which is returned: the header
  \<^verbatim>\<open><columnName>,error,status\<close>, a line feed, and the \<open>n\<close> quoted rows joined by line
  feeds. Provided that neither the column name nor any recorded identifier or error
  message contains a line feed, the lines of the file are the header followed by one row
  per recorded failure, \<open>n + 1\<close> lines in total.
\<close>

theorem saveFailedRecords_file:
  "(failedRecords (logger (self s)) = [] \<longrightarrow> saveFailedRecords E colName s = (Inr None, s)) \<and>
   (failedRecords (logger (self s)) \<noteq> [] \<and> \<not> writeFails E (writes s) \<longrightarrow>
      saveFailedRecords E colName s =
        (Inr (Some (failedRecordsFile (logger (self s)))),
         s\<lparr>files := (files s)(failedRecordsFile (logger (self s))
                  \<mapsto> csv_text colName (failedRecords (logger (self s)))),
           writes := writes s + 1\<rparr>) \<and>
      (\<not> has_line_feed colName \<and>
       (\<forall>r \<in> set (failedRecords (logger (self s))).
           \<not> has_line_feed (js_string (frIdentifier r)) \<and> \<not> has_line_feed (frError r)) \<longrightarrow>
         lines (csv_text colName (failedRecords (logger (self s))))
           = (colName @ '',error,status'') # map csv_row (failedRecords (logger (self s))) \<and>
         length (lines (csv_text colName (failedRecords (logger (self s)))))
           = length (failedRecords (logger (self s))) + 1))"
proof (intro conjI impI)
  assume "failedRecords (logger (self s)) = []"
  then show "saveFailedRecords E colName s = (Inr None, s)"
    by (simp add: saveFailedRecords_def)
next
  assume "failedRecords (logger (self s)) \<noteq> [] \<and> \<not> writeFails E (writes s)"
  then show "saveFailedRecords E colName s =
        (Inr (Some (failedRecordsFile (logger (self s)))),
         s\<lparr>files := (files s)(failedRecordsFile (logger (self s))
                  \<mapsto> csv_text colName (failedRecords (logger (self s)))),
           writes := writes s + 1\<rparr>)"
    by (simp add: saveFailedRecords_written)
next
  assume nonempty: "failedRecords (logger (self s)) \<noteq> [] \<and> \<not> writeFails E (writes s)"
    and plain: "\<not> has_line_feed colName \<and>
       (\<forall>r \<in> set (failedRecords (logger (self s))).
           \<not> has_line_feed (js_string (frIdentifier r)) \<and> \<not> has_line_feed (frError r))"
  show l: "lines (csv_text colName (failedRecords (logger (self s))))
      = (colName @ '',error,status'') # map csv_row (failedRecords (logger (self s)))"
    using nonempty plain by (intro lines_csv_text) simp_all
  show "length (lines (csv_text colName (failedRecords (logger (self s)))))
      = length (failedRecords (logger (self s))) + 1"
    by (simp add: l)
qed

theorem saveFailedRecords_file_witness:
  "saveFailedRecords env_resolving ''email'' demo_state = (Inr None, demo_state) \<and>
   saveFailedRecords env_resolving ''email'' (demo_failed ''a@example.com'') =
     (Inr (Some ''./logs/failed-records-2026-01-01T00-00-00.csv''),
      (demo_failed ''a@example.com'')
        \<lparr>files := [''./logs/failed-records-2026-01-01T00-00-00.csv'' \<mapsto>
                    csv_text ''email''
                      [\<lparr>frIdentifier = Some ''a@example.com'', frError = ''API Error'',
                        frStatus = 404\<rparr>]],
          writes := 1\<rparr>) \<and>
   lines (csv_text ''email''
       [\<lparr>frIdentifier = Some ''a@example.com'', frError = ''API Error'', frStatus = 404\<rparr>])
     = [''email,error,status'',
        [CHR 0x22] @ ''a@example.com'' @ [CHR 0x22] @ '','' @ [CHR 0x22] @ ''API Error''
          @ [CHR 0x22] @ '',404''] \<and>
   length (lines (csv_text ''email''
       [\<lparr>frIdentifier = Some ''a@example.com'', frError = ''API Error'', frStatus = 404\<rparr>])) = 2 \<and>
   saveFailedRecords env_resolving ''email'' (demo_failed (''a'' @ [CHR 0x0A] @ ''b'')) =
     (Inr (Some ''./logs/failed-records-2026-01-01T00-00-00.csv''),
      (demo_failed (''a'' @ [CHR 0x0A] @ ''b''))
        \<lparr>files := [''./logs/failed-records-2026-01-01T00-00-00.csv'' \<mapsto>
                    csv_text ''email''
                      [\<lparr>frIdentifier = Some (''a'' @ [CHR 0x0A] @ ''b''), frError = ''API Error'',
                        frStatus = 404\<rparr>]],
          writes := 1\<rparr>)"
  using saveFailedRecords_file[of demo_state env_resolving "''email''"]
    saveFailedRecords_file[of "demo_failed ''a@example.com''" env_resolving "''email''"]
    saveFailedRecords_file[of "demo_failed (''a'' @ [CHR 0x0A] @ ''b'')" env_resolving "''email''"]
  by (simp add: has_line_feed_def js_string_def csv_row_def)

section \<open>The command-line twin agrees with the engine\<close>

text \<open>
  The limiter of the twin makes the same state changes; its retry wrapper returns the same
  outcome after the same remote calls and suspensions; its \<^verbatim>\<open>saveFailedRecords\<close> writes
  the same file but returns nothing.
\<close>

lemma cli_limiter_same:
  "cli_new_RateLimiter config = new_RateLimiter (cliRateLimit config)"
  "cli_onSuccess r = onSuccess r"
  "cli_onRateLimit r = snd (onRateLimit r)"
  by (simp_all add: cli_new_RateLimiter_def new_RateLimiter_def cli_onSuccess_def onSuccess_def
      cli_onRateLimit_def onRateLimit_def Let_def)

lemma cli_deleteWithRetry_same:
  assumes "cliRetry config = retry (self s)"
    and "cliIdentifierType config = identifierType (self s)"
    and "cliDeleteAll config = deleteAll (self s)"
  shows "cli_deleteWithRetry (remote E i) ident config attempt (effects s) =
           (fst (deleteWithRetry E i ident attempt s),
            effects (snd (deleteWithRetry E i ident attempt s)))"
  using assms
proof (induction attempt s rule: deleteWithRetry_cases_induct[where E = E and i = i and ident = ident])
  case (step attempt s)
  show ?case
  proof (cases "remote E i attempt")
    case (Resolved result)
    then show ?thesis
      using step.prems
      by (subst cli_deleteWithRetry.simps) (simp add: deleteWithRetry_resolved)
  next
    case (Rejected msg code)
    show ?thesis
    proof (cases "attempt < maxAttempts (retry (self s)) \<and> retryable (effective_status code)")
      case False
      then show ?thesis
        using Rejected step.prems
        by (subst cli_deleteWithRetry.simps)
           (auto simp: deleteWithRetry_final effective_status_def retryable_def)
    next
      case True
      let ?s' = "sleep (retry_delay (retry (self s)) attempt) (issue_call ident s)"
      have ih: "cli_deleteWithRetry (remote E i) ident config (attempt + 1) (effects ?s') =
           (fst (deleteWithRetry E i ident (attempt + 1) ?s'),
            effects (snd (deleteWithRetry E i ident (attempt + 1) ?s')))"
        using True step.prems by (intro step.IH[OF Rejected]) simp_all
      show ?thesis
        using True Rejected step.prems ih
        by (subst cli_deleteWithRetry.simps)
           (auto simp: deleteWithRetry_retry effective_status_def retryable_def retry_delay_def Let_def)
    qed
  qed
qed

lemma cli_saveFailedRecords_same:
  "cli_saveFailedRecords E config s =
     (case saveFailedRecords E (cliCsvColumnName config) s of
        (Inl e, s') \<Rightarrow> (Inl e, s')
      | (Inr path, s') \<Rightarrow> (Inr (), s'))"
  by (simp add: cli_saveFailedRecords_def saveFailedRecords_def andThen_def writeFileSync_def Let_def)

section \<open>Properties of a run\<close>

lemma rate_limits_follow_append:
  assumes "rate_limits_follow ok b xs" and "\<And>b'. rate_limits_follow ok b' ys"
  shows "rate_limits_follow ok b (xs @ ys)"
  using assms(1) by (induction xs arbitrary: b) (simp_all add: assms(2))

lemma limiter_calls_append: "limiter_calls (xs @ ys) = limiter_calls xs @ limiter_calls ys"
  by (induction xs rule: limiter_calls.induct) simp_all

lemma run_inv_refl: "run_inv E s s"
  by (simp add: run_inv_def)

lemma run_inv_extend:
  assumes "run_inv E s0 s"
    and "records (self s') = records (self s)" and "columnName (self s') = columnName (self s)"
    and "retry (self s') = retry (self s)"
    and "emitted s' = emitted s @ block" and "\<And>b. rate_limits_follow (final_429 E s0) b block"
    and "rateLimiter (self s') = foldl limiter_step (rateLimiter (self s)) (limiter_calls block)"
  shows "run_inv E s0 s'"
proof -
  obtain evs where evs: "emitted s = emitted s0 @ evs"
    and follow: "\<And>b. rate_limits_follow (final_429 E s0) b evs"
    and lim: "rateLimiter (self s) = foldl limiter_step (rateLimiter (self s0)) (limiter_calls evs)"
    using assms(1) by (auto simp: run_inv_def)
  have static: "records (self s) = records (self s0)" "columnName (self s) = columnName (self s0)"
    "retry (self s) = retry (self s0)"
    using assms(1) by (simp_all add: run_inv_def)
  show ?thesis
    unfolding run_inv_def
  proof (intro conjI exI[of _ "evs @ block"] allI)
    show "records (self s') = records (self s0)"
      using static assms(2) by simp
    show "columnName (self s') = columnName (self s0)"
      using static assms(3) by simp
    show "retry (self s') = retry (self s0)"
      using static assms(4) by simp
    show "emitted s' = emitted s0 @ evs @ block"
      using evs assms(5) by simp
    show "rate_limits_follow (final_429 E s0) b (evs @ block)" for b
      using follow assms(6) by (intro rate_limits_follow_append)
    show "rateLimiter (self s')
        = foldl limiter_step (rateLimiter (self s0)) (limiter_calls (evs @ block))"
      using lim assms(7) by (simp add: limiter_calls_append)
  qed
qed

lemma run_inv_silent:
  assumes "run_inv E s0 s" and "self s' = self s" and "emitted s' = emitted s"
  shows "run_inv E s0 s'"
  using assms(1) by (rule run_inv_extend[where block = "[]"]) (simp_all add: assms(2,3))

lemma run_inv_andThen:
  assumes "run_inv E s0 s"
    and "\<And>s1. run_inv E s0 s1 \<Longrightarrow> run_inv E s0 (snd (m s1))"
    and "\<And>a s1. run_inv E s0 s1 \<Longrightarrow> run_inv E s0 (snd (f a s1))"
  shows "run_inv E s0 (snd (andThen m f s))"
proof (cases "m s")
  case (Pair r s1)
  have s1: "run_inv E s0 s1"
    using assms(2)[OF assms(1)] Pair by simp
  show ?thesis
    using s1 assms(3)[OF s1] Pair by (cases r) (simp_all add: andThen_def)
qed

lemma writeFileSync_emitted: "emitted (snd (writeFileSync E path content fl s)) = emitted s"
  by (simp add: writeFileSync_def)

lemma run_inv_logger_log:
  "run_inv E s0 s \<Longrightarrow> run_inv E s0 (snd (logger_log E message s))"
  by (erule run_inv_silent) (simp_all add: logger_log_def writeFileSync_self writeFileSync_emitted)

lemma deleteWithRetry_emitted: "emitted (snd (deleteWithRetry E i ident attempt s)) = emitted s"
proof (induction attempt s rule: deleteWithRetry_cases_induct[where E = E and i = i and ident = ident])
  case (step attempt s)
  show ?case
  proof (cases "remote E i attempt")
    case (Resolved result)
    then show ?thesis
      by (simp add: deleteWithRetry_resolved restore_key_def issue_call_def)
  next
    case (Rejected msg code)
    show ?thesis
    proof (cases "attempt < maxAttempts (retry (self s)) \<and> retryable (effective_status code)")
      case False
      then show ?thesis
        using Rejected by (simp add: deleteWithRetry_final restore_key_def issue_call_def)
    next
      case True
      then show ?thesis
        using Rejected step[OF Rejected]
        by (simp add: deleteWithRetry_retry restore_key_def issue_call_def sleep_def)
    qed
  qed
qed

lemma deleteWithRetry_outcome_static:
  "retry (self s') = retry (self s) \<Longrightarrow>
     fst (deleteWithRetry E i ident attempt s') = fst (deleteWithRetry E i ident attempt s)"
proof (induction attempt s arbitrary: s'
    rule: deleteWithRetry_cases_induct[where E = E and i = i and ident = ident])
  case (step attempt s)
  show ?case
  proof (cases "remote E i attempt")
    case (Resolved result)
    then show ?thesis
      by (simp add: deleteWithRetry_resolved)
  next
    case (Rejected msg code)
    show ?thesis
    proof (cases "attempt < maxAttempts (retry (self s)) \<and> retryable (effective_status code)")
      case False
      then show ?thesis
        using Rejected step.prems by (simp add: deleteWithRetry_final)
    next
      case True
      then have lt: "attempt < maxAttempts (retry (self s))"
        and rt: "retryable (effective_status code)" by simp_all
      have lt': "attempt < maxAttempts (retry (self s'))"
        using lt step.prems by simp
      show ?thesis
        using step.IH[OF Rejected lt rt,
            of "sleep (retry_delay (retry (self s')) attempt) (issue_call ident s')"]
          step.prems
        by (simp add: deleteWithRetry_retry[OF Rejected lt rt] deleteWithRetry_retry[OF Rejected lt' rt])
    qed
  qed
qed

lemma emit_emitted: "emitted (emit e s) = emitted s @ [e]"
  by (simp add: emit_def)

lemma run_inv_emit:
  assumes "run_inv E s0 s" and "\<not> is_rate_limit e" and "limiter_calls [e] = []"
  shows "run_inv E s0 (emit e s)"
  using assms(1)
  by (rule run_inv_extend[where block = "[e]"]) (simp_all add: emit_self emit_emitted assms(2,3))

lemma run_inv_cancel: "run_inv E s0 s \<Longrightarrow> run_inv E s0 (cancel s)"
  by (erule run_inv_extend[where block = "[CancelledEv]"]) (simp_all add: cancel_def emit_def)

lemma run_inv_sleep: "run_inv E s0 s \<Longrightarrow> run_inv E s0 (sleep ms s)"
  by (erule run_inv_silent) (simp_all add: sleep_def)

lemma run_inv_deleteWithRetry:
  "run_inv E s0 s \<Longrightarrow> run_inv E s0 (snd (deleteWithRetry E i ident attempt s))"
  by (erule run_inv_silent) (simp_all add: deleteWithRetry_self deleteWithRetry_emitted)

lemma run_inv_on_success:
  assumes "run_inv E s0 s"
  shows "run_inv E s0
           ((emit (SuccessEv ident current totalCount) s)
              \<lparr>self := (self (emit (SuccessEv ident current totalCount) s))
                 \<lparr>rateLimiter := onSuccess (rateLimiter (self (emit (SuccessEv ident current totalCount) s)))\<rparr>\<rparr>)"
  using assms
  by (rule run_inv_extend[where block = "[SuccessEv ident current totalCount]"])
     (simp_all add: emit_def)

lemma run_inv_on_failure:
  assumes "run_inv E s0 s" and "item_outcome E s0 (current - 1) = Failure err st attempt"
    and "0 < current"
  shows "run_inv E s0
           (let s1 = addFailedRecord ident err st s;
                s2 = emit (FailureEv ident err st current totalCount) s1
            in if st = 429
               then (let delays = onRateLimit (rateLimiter (self s2));
                         s' = s2\<lparr>self := (self s2)\<lparr>rateLimiter := snd delays\<rparr>\<rparr>
                     in emit (RateLimitEv (fst (fst delays)) (snd (fst delays))) s')
               else s2)"
proof (cases "st = 429")
  case True
  let ?rl = "onRateLimit (rateLimiter (self s))"
  show ?thesis
    using assms(1)
    by (rule run_inv_extend[where block = "[FailureEv ident err st current totalCount,
            RateLimitEv (fst (fst ?rl)) (snd (fst ?rl))]"])
       (insert assms(2,3), simp_all add: True Let_def emit_def addFailedRecord_def)
next
  case False
  show ?thesis
    using assms(1)
    by (rule run_inv_extend[where block = "[FailureEv ident err st current totalCount]"])
       (simp_all add: False Let_def emit_def addFailedRecord_def)
qed

lemma run_inv_on_result:
  assumes "run_inv E s0 s" and "result = item_outcome E s0 (current - 1)" and "0 < current"
  shows "run_inv E s0 (snd (on_result E ident current totalCount result sc fc s))"
proof (cases result)
  case (Success res)
  show ?thesis
    unfolding on_result_def Success outcome.case
    using assms(1)
    by (rule run_inv_andThen) (simp_all add: run_inv_logger_log Let_def run_inv_on_success)
next
  case (Failure err st attempt)
  have out: "item_outcome E s0 (current - 1) = Failure err st attempt"
    using assms(2) Failure by simp
  show ?thesis
    unfolding on_result_def Failure outcome.case
    using assms(1)
  proof (rule run_inv_andThen)
    fix a s1
    assume "run_inv E s0 s1"
    then show "run_inv E s0 (snd (let s1' = addFailedRecord ident err st s1;
                 s2 = emit (FailureEv ident err st current totalCount) s1';
                 s3 = (if st = 429
                       then (let delays = onRateLimit (rateLimiter (self s2));
                                 s' = s2\<lparr>self := (self s2)\<lparr>rateLimiter := snd delays\<rparr>\<rparr>
                             in emit (RateLimitEv (fst (fst delays)) (snd (fst delays))) s')
                       else s2)
             in (Inr (sc, fc + 1), s3)))"
      using run_inv_on_failure[OF _ out assms(3), of s1 ident totalCount]
      by (simp add: Let_def)
  qed (simp add: run_inv_logger_log)
qed

lemma run_inv_loop_body:
  assumes "run_inv E s0 s"
  shows "run_inv E s0 (snd (loop_body E i sc fc s))"
proof (cases "cancelled (self s)")
  case True
  show ?thesis
    unfolding loop_body_def if_P[OF True]
    using assms
    by (rule run_inv_andThen) (simp_all add: run_inv_logger_log run_inv_emit)
next
  case False
  let ?ident = "(records (self s) ! i) (columnName (self s))"
  let ?s1 = "emit (ProgressEv (i + 1) (length (records (self s)))
                     (real (i + 1) / real (length (records (self s))) * 100)) s"
  let ?called = "deleteWithRetry E i ?ident 1 ?s1"
  let ?s2 = "if cancelReq E i = Some DuringCall then cancel (snd ?called) else snd ?called"
  have static: "records (self s) = records (self s0)" "columnName (self s) = columnName (self s0)"
    "retry (self s) = retry (self s0)"
    using assms by (simp_all add: run_inv_def)
  have s1: "run_inv E s0 ?s1"
    using assms by (rule run_inv_emit) simp_all
  have s2: "run_inv E s0 ?s2"
    using s1 by (simp add: run_inv_cancel run_inv_deleteWithRetry)
  have out: "fst ?called = item_outcome E s0 (i + 1 - 1)"
    using deleteWithRetry_outcome_static[of ?s1 s0 E i ?ident 1] static
    by (simp add: item_outcome_def emit_self)
  show ?thesis
    unfolding loop_body_def if_not_P[OF False] Let_def
    using s2
  proof (rule run_inv_andThen)
    fix s1
    assume "run_inv E s0 s1"
    then show "run_inv E s0 (snd (on_result E ?ident (i + 1) (length (records (self s)))
        (fst ?called) sc fc s1))"
      using out by (intro run_inv_on_result) simp_all
  next
    fix a s1
    assume "run_inv E s0 s1"
    then show "run_inv E s0 (snd (Inr (Continue, fst a, snd a),
            if int i < int (length (records (self s1))) - 1
            then if cancelReq E i = Some DuringWait
                 then cancel (sleep (currentDelay (rateLimiter (self s1))) s1)
                 else sleep (currentDelay (rateLimiter (self s1))) s1
            else s1))"
      by (simp add: run_inv_cancel run_inv_sleep)
  qed
qed

lemma run_inv_loop:
  assumes "run_inv E s0 s"
  shows "run_inv E s0 (snd (loop E i sc fc s))"
  using assms
proof (induction "length (records (self s)) - i" arbitrary: i sc fc s rule: less_induct)
  case less
  show ?case
  proof (cases "i < length (records (self s))")
    case False
    then show ?thesis
      using less.prems by (subst loop.simps) simp
  next
    case True
    obtain r s' where body: "loop_body E i sc fc s = (r, s')"
      by (cases "loop_body E i sc fc s")
    have s': "run_inv E s0 s'"
      using run_inv_loop_body[OF less.prems, of i sc fc] body by simp
    have recs: "records (self s') = records (self s)"
      using loop_body_records[of E i sc fc s] body by simp
    show ?thesis
    proof (cases r)
      case (Inl e)
      then show ?thesis
        using True body s' by (subst loop.simps) simp
    next
      case (Inr v)
      obtain fl sc' fc' where v: "v = (fl, sc', fc')"
        by (cases v)
      show ?thesis
      proof (cases fl)
        case Break
        then show ?thesis
          using True body s' Inr v by (subst loop.simps) simp
      next
        case Continue
        have "run_inv E s0 (snd (loop E (i + 1) sc' fc' s'))"
          using True recs by (intro less.hyps s') simp
        then show ?thesis
          using True body Inr v Continue by (subst loop.simps) simp
      qed
    qed
  qed
qed

lemma run_inv_saveFailedRecords:
  "run_inv E s0 s \<Longrightarrow> run_inv E s0 (snd (saveFailedRecords E colName s))"
  by (erule run_inv_silent)
     (simp_all add: saveFailedRecords_def Let_def andThen_def writeFileSync_def)

lemma run_inv_clear_key:
  "run_inv E s0 s \<Longrightarrow> run_inv E s0 (s\<lparr>self := (self s)\<lparr>apiKey := None\<rparr>\<rparr>)"
  by (erule run_inv_extend[where block = "[]"]) simp_all

lemma run_inv_start: "run_inv E s (snd (start E s))"
  unfolding start_def
  by (intro run_inv_andThen run_inv_refl run_inv_logger_log run_inv_loop
        run_inv_saveFailedRecords)
     (simp_all add: run_inv_emit run_inv_clear_key)

text \<open>
  Claim C5: during any run, a \<^verbatim>\<open>rateLimit\<close> event and the limiter's
  \<^verbatim>\<open>onRateLimit\<close> call occur only for an item whose final outcome is a failure with
  status 429. Among the events of a run, every \<^verbatim>\<open>rateLimit\<close> event comes directly
  after the \<^verbatim>\<open>failure\<close> event (status 429) of an item whose retry wrapper returned a
  failure with status 429, and the limiter at the end of the run is the initial limiter
  after one \<^verbatim>\<open>onSuccess\<close> per \<^verbatim>\<open>success\<close> event and one \<^verbatim>\<open>onRateLimit\<close> per
  \<^verbatim>\<open>rateLimit\<close> event, in order. An item whose 429 is followed by a successful retry
  has the outcome success, hence no \<^verbatim>\<open>rateLimit\<close> event and no \<^verbatim>\<open>onRateLimit\<close>
  call.
\<close>

theorem rate_limit_only_after_final_429:
  "rate_limits_follow (final_429 E s) False (new_events s (snd (start E s))) \<and>
   rateLimiter (self (snd (start E s)))
     = foldl limiter_step (rateLimiter (self s)) (limiter_calls (new_events s (snd (start E s))))"
  using run_inv_start[of E s] by (auto simp: run_inv_def new_events_def)

subsection \<open>Concrete runs\<close>

text \<open>
  Rules for evaluating a run of the demo processor: a log call that succeeds or throws,
  the fields of the demo state and of the environments.
\<close>

lemma logger_log_ok:
  "\<not> writeFails E (writes s) \<Longrightarrow>
   logger_log E message s =
     (Inr (), s\<lparr>files := log_written E message s, writes := writes s + 1\<rparr>)"
  by (simp add: logger_log_def writeFileSync_def log_written_def)

lemma logger_log_fail:
  "writeFails E (writes s) \<Longrightarrow>
   logger_log E message s = (Inl IOError, s\<lparr>writes := writes s + 1\<rparr>)"
  by (simp add: logger_log_def writeFileSync_def)

lemma string_of_nat_digit: "n < 10 \<Longrightarrow> string_of_nat n = [''0123456789'' ! n]"
  by (subst string_of_nat.simps) simp

lemma saveFailedRecords_empty:
  "failedRecords (logger (self s)) = [] \<Longrightarrow> saveFailedRecords E colName s = (Inr None, s)"
  by (simp add: saveFailedRecords_def)

lemma demo_state_fields [simp]:
  "records (self demo_state) = [[''email'' \<mapsto> ''a@example.com''], [''email'' \<mapsto> ''b@example.com'']]"
  "columnName (self demo_state) = ''email''"
  "cancelled (self demo_state) = False"
  "rateLimiter (self demo_state) =
     \<lparr>currentDelay = 100, baseDelay = 100, maxDelay = 5000, backoffMultiplier = 3/2,
      consecutiveSuccesses = 0\<rparr>"
  "logFile (logger (self demo_state)) = ''./logs/batch-log-2026-01-01T00-00-00.txt''"
  "failedRecordsFile (logger (self demo_state)) = ''./logs/failed-records-2026-01-01T00-00-00.csv''"
  "files demo_state = Map.empty"
  "writes demo_state = 0"
  "emitted demo_state = []"
  by (simp_all add: demo_state_def new_BatchProcessor_def demo_config_def new_Logger_def
      new_RateLimiter_def Let_def)

lemma env_resolving_fields [simp]:
  "remote env_resolving i a = Resolved 200"
  "cancelReq env_resolving i = None"
  "isoNow env_resolving k = ''2026-01-01T00:00:01.000Z''"
  "elapsedMs env_resolving = 1500"
  by (simp_all add: env_resolving_def)

lemma env_rejecting_fields [simp]:
  "cancelReq (env_rejecting code) i = None"
  "writeFails (env_rejecting code) k = False"
  "isoNow (env_rejecting code) k = ''2026-01-01T00:00:01.000Z''"
  "elapsedMs (env_rejecting code) = 1500"
  by (simp_all add: env_rejecting_def)

lemmas run_simps =
  new_events_def start_def andThen_def logger_log_ok logger_log_fail loop.simps loop_body_def
  on_result_def deleteWithRetry_def deleteWithRetry_call_step run_pending_def effective_status_def retryable_def retry_delay_def
  Let_def emit_def sleep_def cancel_def addFailedRecord_def
  saveFailedRecords_written saveFailedRecords_empty getLogFile_def logger_hasFailedRecords_def
  formatDuration_def string_of_int_def string_of_nat_digit restore_key_def issue_call_def
  truthy_def env_string_def js_string_def onSuccess_def onRateLimit_def

lemma throttled_run:
  "new_events demo_state (snd (start env_throttled demo_state)) =
     [StartEv 2, ProgressEv 1 2 50,
      FailureEv (Some ''a@example.com'') ''Too Many Requests'' 429 1 2,
      RateLimitEv 100 150,
      ProgressEv 2 2 100,
      SuccessEv (Some ''b@example.com'') 2 2,
      CompleteEv \<lparr> successCount = 1, failureCount = 1, totalProcessed = 2,
                   duration = ''1s'', durationMs = 1500,
                   summaryLogFile = ''./logs/batch-log-2026-01-01T00-00-00.txt'',
                   summaryFailedRecordsFile = Some ''./logs/failed-records-2026-01-01T00-00-00.csv'',
                   hasFailedRecords = True \<rparr>] \<and>
   effects (snd (start env_throttled demo_state)) =
     [RemoteCall ''email'' (Some ''a@example.com'') False, Sleep 1000,
      RemoteCall ''email'' (Some ''a@example.com'') False, Sleep 2000,
      RemoteCall ''email'' (Some ''a@example.com'') False, Sleep 150,
      RemoteCall ''email'' (Some ''b@example.com'') False, Sleep 1000,
      RemoteCall ''email'' (Some ''b@example.com'') False]"
  by (simp add: run_simps env_throttled_def string_of_nat.simps[of 429] string_of_nat.simps[of 42])

theorem rate_limit_only_after_final_429_witness:
  "rate_limits_follow (final_429 env_throttled demo_state) False
     (new_events demo_state (snd (start env_throttled demo_state))) \<and>
   limiter_calls (new_events demo_state (snd (start env_throttled demo_state)))
     = [OnRateLimit, OnSuccess] \<and>
   rateLimiter (self (snd (start env_throttled demo_state)))
     = foldl limiter_step (rateLimiter (self demo_state)) [OnRateLimit, OnSuccess]"
proof -
  have calls: "limiter_calls (new_events demo_state (snd (start env_throttled demo_state)))
     = [OnRateLimit, OnSuccess]"
    by (simp add: conjunct1[OF throttled_run])
  show ?thesis
    using rate_limit_only_after_final_429[of env_throttled demo_state] calls
    by (simp only: simp_thms)
qed

subsection \<open>Runs that return\<close>

text \<open>
  A run that returns has cleared the key, and its last event is the \<^verbatim>\<open>complete\<close> event,
  whose \<open>totalProcessed\<close> is the number of records, whether or not the loop was left
  by cancellation.
\<close>

lemma andThen_returns:
  assumes "\<And>a s1. fst (f a s1) = Inr b \<Longrightarrow> Q (snd (f a s1))"
    and "fst (andThen m f s) = Inr b"
  shows "Q (snd (andThen m f s))"
proof (cases "m s")
  case (Pair r s1)
  show ?thesis
  proof (cases r)
    case (Inl e)
    then show ?thesis
      using Pair assms(2) by (simp add: andThen_def)
  next
    case (Inr a)
    then show ?thesis
      using Pair assms(1)[of a s1] assms(2) by (simp add: andThen_def)
  qed
qed

lemma start_clears_key_on_return:
  assumes "fst (start E s) = Inr u"
  shows "apiKey (self (snd (start E s))) = None"
  using assms unfolding start_def
  by (elim andThen_returns[rotated]) simp

lemma andThen_returns_from:
  assumes "\<And>a s0 s1. m s0 = (Inr a, s1) \<Longrightarrow> fst (f a s1) = Inr b \<Longrightarrow> Q (snd (f a s1))"
    and "fst (andThen m f s) = Inr b"
  shows "Q (snd (andThen m f s))"
proof (cases "m s")
  case (Pair r s1)
  show ?thesis
  proof (cases r)
    case (Inl e)
    then show ?thesis
      using Pair assms(2) by (simp add: andThen_def)
  next
    case (Inr a)
    then show ?thesis
      using Pair assms(1)[of s a s1] assms(2) by (simp add: andThen_def)
  qed
qed

lemma start_reports_record_count:
  assumes "fst (start E s) = Inr u"
  shows "\<exists>sm. last (emitted (snd (start E s))) = CompleteEv sm \<and>
               totalProcessed sm = length (records (self s))"
proof -
  have "\<exists>sm. last (emitted (snd (start E s))) = CompleteEv sm \<and>
               totalProcessed sm = length (records (self (snd (start E s))))"
    using assms unfolding start_def
    by (elim andThen_returns_from[rotated]) (auto simp: emit_def)
  moreover have "records (self (snd (start E s))) = records (self s)"
    using run_inv_start[of E s] by (simp add: run_inv_def)
  ultimately show ?thesis by simp
qed

subsection \<open>Cancelled and failed runs\<close>

text \<open>
  Claim C1 (not met by the code): a run cancelled after item \<open>i\<close> reports
  \<open>totalProcessed = i\<close>. With two records and \<^verbatim>\<open>cancel()\<close> arriving after the first
  item, no event is emitted for the second item, but the summary reports
  \<open>totalProcessed = 2\<close>: the field is \<^verbatim>\<open>this.records.length\<close>.
\<close>

theorem cancelled_run_reports_total:
  "new_events demo_state (snd (start env_cancel_after_first demo_state)) =
     [StartEv 2, ProgressEv 1 2 50, SuccessEv (Some ''a@example.com'') 1 2,
      CancelledEv, CancelledEv,
      CompleteEv \<lparr> successCount = 1, failureCount = 0, totalProcessed = 2,
                   duration = ''1s'', durationMs = 1500,
                   summaryLogFile = ''./logs/batch-log-2026-01-01T00-00-00.txt'',
                   summaryFailedRecordsFile = None, hasFailedRecords = False \<rparr>]"
  by (simp add: run_simps env_cancel_after_first_def)

text \<open>
  Claim C2 (not met by the code): at \<^verbatim>\<open>complete\<close>,
  \<open>successCount + failureCount = totalProcessed\<close>, and \<open>totalProcessed\<close> equals the
  number of records exactly when the run was not cancelled. In a run of two records
  cancelled during the first one, which fails, the summary has \<open>successCount = 0\<close>,
  \<open>failureCount = 1\<close> and \<open>totalProcessed = 2\<close>.
\<close>

theorem cancelled_run_counts_differ:
  "new_events demo_state (snd (start env_cancel_during_404 demo_state)) =
     [StartEv 2, ProgressEv 1 2 50, CancelledEv,
      FailureEv (Some ''a@example.com'') ''API Error'' 404 1 2, CancelledEv,
      CompleteEv \<lparr> successCount = 0, failureCount = 1, totalProcessed = 2,
                   duration = ''1s'', durationMs = 1500,
                   summaryLogFile = ''./logs/batch-log-2026-01-01T00-00-00.txt'',
                   summaryFailedRecordsFile = Some ''./logs/failed-records-2026-01-01T00-00-00.csv'',
                   hasFailedRecords = True \<rparr>]"
  by (simp add: run_simps env_cancel_during_404_def string_of_nat.simps[of 404] string_of_nat.simps[of 40])

text \<open>
  Claim C6 (not met by the code): in every terminal state the API key has been discarded.
  When a log write throws, \<^verbatim>\<open>start\<close> ends with the exception; the statement
  \<^verbatim>\<open>this.apiKey = null\<close> is never reached and the processor keeps the key.
\<close>

theorem failed_run_keeps_key:
  "fst (start env_log_failure demo_state) = Inl IOError \<and>
   apiKey (self (snd (start env_log_failure demo_state))) = Some ''secret'' \<and>
   effects (snd (start env_log_failure demo_state))
     = [RemoteCall ''email'' (Some ''a@example.com'') False] \<and>
   new_events demo_state (snd (start env_log_failure demo_state)) = [StartEv 2, ProgressEv 1 2 50]"
  by (simp add: run_simps env_log_failure_def)

end
